theory Spec2Isabelle
  imports Complex_Main "HOL-Library.Log_Nat" "HOL-Library.Char_ord" "HOL-Library.List_Lexorder" "HOL-Library.Multiset"
begin

section \<open>JavaScript values and platform functions\<close>

text \<open>
  The persistence layer of Budget Pro (\<^verbatim>\<open>db.js\<close>) is embedded as pure functions over an
  explicit store. Strings are sequences of 8-bit code units (the Latin-1 range of
  JavaScript's UTF-16 strings), compared by code unit as \<^verbatim>\<open>===\<close> and \<^verbatim>\<open>>=\<close> do.
  Numbers are either \<^verbatim>\<open>NaN\<close> or a finite real number; where \<^verbatim>\<open>db.js\<close> adds two numbers
  the sum is rounded as binary64 arithmetic rounds it. The infinities are not
  represented.
\<close>

datatype jsnum = NaN | Num real

text \<open>A field value handed to \<^verbatim>\<open>addExpense\<close> by a caller: the form layer passes strings
  (or \<^verbatim>\<open>null\<close> for a missing field), other callers pass numbers.\<close>

datatype jsval = Undefined | Null | JNum jsnum | JStr string

text \<open>What a \<^verbatim>\<open>Date\<close> object answers in local time.\<close>

record js_date =
  getFullYear :: int
  getMonth :: nat
  getDate :: nat
  getDay :: nat

text \<open>
  Functions of the browser that \<^verbatim>\<open>db.js\<close> calls and does not define. They are
  parameters of the model: every theorem holds for each choice of them.
  \<^item> \<open>sha256_hex\<close>: the hexadecimal SHA-256 digest of a string's encoding
    (\<^verbatim>\<open>crypto.subtle.digest\<close> followed by the hex formatting of \<^verbatim>\<open>_hash\<close>);
  \<^item> \<open>string_to_number\<close>: the conversion of a string to a number (\<^verbatim>\<open>+s\<close>, \<^verbatim>\<open>Number(s)\<close>);
  \<^item> \<open>localeCompare\<close>: the locale's collation of two strings;
  \<^item> \<open>new_Date\<close>: the local calendar fields of a time given in milliseconds since the epoch.
\<close>

record platform =
  sha256_hex :: "string \<Rightarrow> string"
  string_to_number :: "string \<Rightarrow> jsnum"
  localeCompare :: "string \<Rightarrow> string \<Rightarrow> int"
  new_Date :: "int \<Rightarrow> js_date"

fun Number :: "platform \<Rightarrow> jsval \<Rightarrow> jsnum" where
  "Number P Undefined = NaN"
| "Number P Null = Num 0"
| "Number P (JNum n) = n"
| "Number P (JStr s) = string_to_number P s"

text \<open>\<^verbatim>\<open>String(x)\<close> of a string that may be absent.\<close>

fun String_of :: "string option \<Rightarrow> string" where
  "String_of None = ''undefined''"
| "String_of (Some s) = s"

subsection \<open>Strings\<close>

text \<open>The white space and line terminators of \<^verbatim>\<open>String.prototype.trim\<close> below code
  unit 256: TAB, LF, VT, FF, CR, SP and NBSP.\<close>

definition is_space :: "char \<Rightarrow> bool" where
  "is_space c \<longleftrightarrow> (of_char c :: nat) \<in> {9, 10, 11, 12, 13, 32, 160}"

definition trim :: "string \<Rightarrow> string" where
  "trim s = rev (dropWhile is_space (rev (dropWhile is_space s)))"

text \<open>\<^verbatim>\<open>toLowerCase\<close> on Latin-1: A-Z and the accented capitals (except the
  multiplication sign) move up by 32.\<close>

definition lower_char :: "char \<Rightarrow> char" where
  "lower_char c =
     (let n = (of_char c :: nat)
      in if (65 \<le> n \<and> n \<le> 90) \<or> (192 \<le> n \<and> n \<le> 222 \<and> n \<noteq> 215)
         then char_of (n + 32) else c)"

definition toLowerCase :: "string \<Rightarrow> string" where
  "toLowerCase s = map lower_char s"

text \<open>Decimal digits of a natural number, and \<^verbatim>\<open>String(i)\<close> of an integer.\<close>

definition digit_char :: "nat \<Rightarrow> char" where
  "digit_char d = ''0123456789'' ! d"

fun show_nat :: "nat \<Rightarrow> string" where
  "show_nat n =
     (if n < 10 then [digit_char n]
      else show_nat (n div 10) @ [digit_char (n mod 10)])"

declare show_nat.simps [simp del]

definition String_int :: "int \<Rightarrow> string" where
  "String_int i = (if i < 0 then CHR ''-'' # show_nat (nat (- i)) else show_nat (nat i))"

text \<open>\<^verbatim>\<open>s.padStart(2, '0')\<close>\<close>

definition padStart2 :: "string \<Rightarrow> string" where
  "padStart2 s = replicate (2 - length s) CHR ''0'' @ s"

text \<open>\<^verbatim>\<open>s.split(c)\<close> for a one-character separator.\<close>

fun split_on :: "char \<Rightarrow> string \<Rightarrow> string list" where
  "split_on c [] = [[]]"
| "split_on c (x # xs) =
     (if x = c then [] # split_on c xs
      else (case split_on c xs of [] \<Rightarrow> [[x]] | w # ws \<Rightarrow> (x # w) # ws))"

text \<open>The \<open>i\<close>-th element of an array, \<^verbatim>\<open>undefined\<close> (\<open>None\<close>) beyond its end.\<close>

fun elem_at :: "'a list \<Rightarrow> nat \<Rightarrow> 'a option" where
  "elem_at [] i = None"
| "elem_at (x # xs) 0 = Some x"
| "elem_at (x # xs) (Suc i) = elem_at xs i"

text \<open>\<^verbatim>\<open>_ds\<close>: a date as \<^verbatim>\<open>'YYYY-MM-DD'\<close>.\<close>

definition ds :: "js_date \<Rightarrow> string" where
  "ds d = String_int (getFullYear d) @ ''-'' @ padStart2 (show_nat (getMonth d + 1))
            @ ''-'' @ padStart2 (show_nat (getDate d))"

text \<open>\<^verbatim>\<open>_hash\<close>: the digest of the fixed salt followed by the PIN.\<close>

definition hash :: "platform \<Rightarrow> string \<Rightarrow> string" where
  "hash P pin = sha256_hex P (''bp_v5_salt_'' @ pin)"

subsection \<open>Addition\<close>

text \<open>
  A JavaScript number is a binary64 value: zero, or \<open>m * 2\<^sup>s\<close> with an integer \<open>m\<close> of at most
  53 bits and \<open>s\<close> at least \<open>-1074\<close>. The sum of two numbers is the binary64 value nearest to
  their exact sum, the one with the even \<open>m\<close> when two are equally near. A sum beyond the
  largest binary64 value (about \<open>1.8 * 10\<^sup>3\<^sup>0\<^sup>8\<close>), which JavaScript makes \<^verbatim>\<open>Infinity\<close>, is not
  represented.
\<close>

text \<open>The nearest integer, the even one on a tie.\<close>

definition round_even :: "real \<Rightarrow> int" where
  "round_even x =
     (let n = \<lfloor>x\<rfloor>; d = x - of_int n
      in if d < 1 / 2 then n else if 1 / 2 < d then n + 1 else if even n then n else n + 1)"

definition pow2 :: "int \<Rightarrow> real" where
  "pow2 k = (if 0 \<le> k then 2 ^ nat k else 1 / 2 ^ nat (- k))"

text \<open>The exponent \<open>e\<close> of a positive number: \<open>2\<^sup>e \<le> x < 2\<^sup>e\<^sup>+\<^sup>1\<close>.\<close>

definition ilog2 :: "real \<Rightarrow> int" where
  "ilog2 x =
     (if 1 \<le> x then bitlen \<lfloor>x\<rfloor> - 1
      else (let b = bitlen \<lfloor>1 / x\<rfloor> in if 2 \<le> x * pow2 b then 1 - b else - b))"

text \<open>The binary64 value nearest to a real number.\<close>

definition binary64 :: "real \<Rightarrow> real" where
  "binary64 x =
     (if x = 0 then 0
      else (let s = max (ilog2 \<bar>x\<bar> - 52) (- 1074)
            in of_int (round_even (x / pow2 s)) * pow2 s))"

text \<open>\<^verbatim>\<open>a + b\<close> on numbers.\<close>

definition num_add :: "real \<Rightarrow> real \<Rightarrow> real" where
  "num_add a b = binary64 (a + b)"

section \<open>The store\<close>

text \<open>
  An object store with \<^verbatim>\<open>keyPath: 'id', autoIncrement: true\<close>: its records in key
  order, each with its key, and the last number its key generator handed out. The
  generator starts at 1 and only grows, so a key is never reused.

  The asynchronous calls of \<^verbatim>\<open>db.js\<close> run one after the other, so each is a function
  from the store before it to its result and the store after it. The current time
  (\<^verbatim>\<open>Date.now()\<close>, \<^verbatim>\<open>new Date()\<close>) is an argument \<open>now\<close>, in milliseconds. A transaction
  that the browser aborts (a full disk, a closed database) is not modelled: a write that
  is reached succeeds.
\<close>

record 'a objectStore =
  rows :: "(nat \<times> 'a) list"
  keygen :: nat

record user =
  username :: string
  pinHash :: string
  createdAt :: int

record expense =
  user_id :: nat
  name :: string
  amount :: real
  category :: string
  date :: string
  hour :: real
  minute :: real
  ts :: int

record store =
  users :: "user objectStore"
  expenses :: "expense objectStore"

definition emptyStore :: "'a objectStore" where
  "emptyStore = \<lparr>rows = [], keygen = 0\<rparr>"

text \<open>The database after \<^verbatim>\<open>onupgradeneeded\<close>: both object stores created, empty.\<close>

definition openDB :: store where
  "openDB = \<lparr>users = emptyStore, expenses = emptyStore\<rparr>"

text \<open>\<^verbatim>\<open>_add\<close>: the record is stored under the next key, which is returned.\<close>

definition db_add :: "'a objectStore \<Rightarrow> 'a \<Rightarrow> nat \<times> 'a objectStore" where
  "db_add t r = (let key = Suc (keygen t) in (key, \<lparr>rows = rows t @ [(key, r)], keygen = key\<rparr>))"

text \<open>\<^verbatim>\<open>_get\<close>: the record under a key, \<^verbatim>\<open>null\<close> (\<open>None\<close>) when there is none.\<close>

definition db_get :: "'a objectStore \<Rightarrow> nat \<Rightarrow> 'a option" where
  "db_get t key = map_of (rows t) key"

text \<open>\<^verbatim>\<open>_findOne\<close>: the first record whose indexed field has the value.\<close>

definition db_findOne :: "'a objectStore \<Rightarrow> ('a \<Rightarrow> 'b) \<Rightarrow> 'b \<Rightarrow> (nat \<times> 'a) option" where
  "db_findOne t ix v = find (\<lambda>r. ix (snd r) = v) (rows t)"

definition db_getAllFromStore :: "'a objectStore \<Rightarrow> (nat \<times> 'a) list" where
  "db_getAllFromStore t = rows t"

text \<open>\<^verbatim>\<open>_delete\<close>: removes the key; nothing happens when it is absent.\<close>

definition db_delete :: "'a objectStore \<Rightarrow> nat \<Rightarrow> 'a objectStore" where
  "db_delete t key = t\<lparr>rows := filter (\<lambda>r. fst r \<noteq> key) (rows t)\<rparr>"

definition db_count :: "'a objectStore \<Rightarrow> nat" where
  "db_count t = length (rows t)"

text \<open>The keys of an object store are distinct, positive and not beyond the last number of
  the key generator.\<close>

definition keys_ok :: "'a objectStore \<Rightarrow> bool" where
  "keys_ok t \<longleftrightarrow> distinct (map fst (rows t)) \<and> list_all (\<lambda>r. 0 < fst r \<and> fst r \<le> keygen t) (rows t)"

section \<open>The API of \<^verbatim>\<open>DB\<close>\<close>

text \<open>Every \<^verbatim>\<open>throw new Error(...)\<close> of the API, by its message.\<close>

datatype error =
    NameTooShort       \<comment> \<open>Nom trop court (2 caracteres min).\<close>
  | DuplicateUser      \<comment> \<open>Ce nom est deja utilise.\<close>
  | UserNotFound       \<comment> \<open>Utilisateur introuvable.\<close>
  | WrongPin           \<comment> \<open>Code PIN incorrect.\<close>
  | NameRequired       \<comment> \<open>Le nom est requis.\<close>
  | InvalidAmount      \<comment> \<open>Montant invalide (doit etre > 0).\<close>
  | DateRequired       \<comment> \<open>La date est requise.\<close>
  | SaveFailed         \<comment> \<open>Enregistrement echoue, reessayez.\<close>
  | ExpenseNotFound    \<comment> \<open>Depense introuvable.\<close>

subsection \<open>Users\<close>

definition hasUsers :: "store \<Rightarrow> bool" where
  "hasUsers st \<longleftrightarrow> db_count (users st) > 0"

text \<open>An operation that writes returns its result (or the error it throws) and the store
  it leaves behind.\<close>

definition createUser ::
  "platform \<Rightarrow> int \<Rightarrow> store \<Rightarrow> string \<Rightarrow> string \<Rightarrow> (error + nat \<times> string) \<times> store" where
  "createUser P now st uname pin =
     (let u = toLowerCase (trim uname)
      in if length u < 2 then (Inl NameTooShort, st)
         else (case db_findOne (users st) username u of
                 Some exists \<Rightarrow> (Inl DuplicateUser, st)
               | None \<Rightarrow>
                   (let h = hash P pin;
                        (key, t) = db_add (users st) \<lparr>username = u, pinHash = h, createdAt = now\<rparr>
                    in (Inr (key, u), st\<lparr>users := t\<rparr>))))"

definition verifyUser :: "platform \<Rightarrow> store \<Rightarrow> string \<Rightarrow> string \<Rightarrow> error + nat \<times> string" where
  "verifyUser P st uname pin =
     (let u = toLowerCase (trim uname)
      in (case db_findOne (users st) username u of
            None \<Rightarrow> Inl UserNotFound
          | Some usr \<Rightarrow>
              if hash P pin \<noteq> pinHash (snd usr) then Inl WrongPin
              else Inr (fst usr, username (snd usr))))"

subsection \<open>Expenses\<close>

text \<open>The fields a caller passes to \<^verbatim>\<open>addExpense\<close>. A name, category or date is a string
  or absent; an amount, hour or minute is any field value.\<close>

record expense_input =
  in_name :: "string option"
  in_amount :: jsval
  in_category :: "string option"
  in_date :: "string option"
  in_hour :: jsval
  in_minute :: jsval

text \<open>Truthiness of a string that may be absent: present and not empty.\<close>

fun truthy :: "string option \<Rightarrow> bool" where
  "truthy None = False"
| "truthy (Some s) = (s \<noteq> [])"

text \<open>\<^verbatim>\<open>parseFloat(x.toFixed(2))\<close>: the sign and the nearest multiple of 0.01 to the
  absolute value, the larger one on a tie; from \<open>10\<^sup>2\<^sup>1\<close> on \<^verbatim>\<open>toFixed\<close> prints the
  number itself.\<close>

definition toFixed2 :: "real \<Rightarrow> real" where
  "toFixed2 x =
     (if \<bar>x\<bar> \<ge> 10 ^ 21 then x else sgn x * (of_int \<lfloor>\<bar>x\<bar> * 100 + 1 / 2\<rfloor> / 100))"

text \<open>\<^verbatim>\<open>n || 0\<close> on a number: \<^verbatim>\<open>NaN\<close> and 0 are falsy.\<close>

fun or0 :: "jsnum \<Rightarrow> real" where
  "or0 NaN = 0"
| "or0 (Num r) = (if r = 0 then 0 else r)"

definition addExpense ::
  "platform \<Rightarrow> int \<Rightarrow> store \<Rightarrow> nat \<Rightarrow> expense_input \<Rightarrow> (error + nat) \<times> store" where
  "addExpense P now st userId inp =
     (if \<not> truthy (map_option trim (in_name inp)) then (Inl NameRequired, st)
      else (case Number P (in_amount inp) of
              NaN \<Rightarrow> (Inl InvalidAmount, st)
            | Num a \<Rightarrow>
                if \<not> (a > 0) then (Inl InvalidAmount, st)
                else if \<not> truthy (in_date inp) then (Inl DateRequired, st)
                else
                  (let record =
                         \<lparr>user_id = userId,
                          name = trim (String_of (in_name inp)),
                          amount = toFixed2 a,
                          category = (if truthy (in_category inp) then String_of (in_category inp)
                                      else ''Alimentation''),
                          date = String_of (in_date inp),
                          hour = or0 (Number P (in_hour inp)),
                          minute = or0 (Number P (in_minute inp)),
                          ts = now\<rparr>;
                       (newId, t) = db_add (expenses st) record;
                       st' = st\<lparr>expenses := t\<rparr>
                   in if newId = 0 then (Inl SaveFailed, st') else (Inr newId, st'))))"

text \<open>The \<^verbatim>\<open>switch (period)\<close> of \<^verbatim>\<open>getExpenses\<close>, for an expense dated \<open>d\<close>.\<close>

definition in_period :: "platform \<Rightarrow> int \<Rightarrow> string \<Rightarrow> string \<Rightarrow> bool" where
  "in_period P now period d =
     (let today = ds (new_Date P now)
      in if period = ''today'' then d = today
         else if period = ''3days'' then d \<ge> ds (new_Date P (now - 2 * 86400000))
         else if period = ''week'' then
           (let dow = (if getDay (new_Date P now) = 0 then 7 else getDay (new_Date P now));
                mon = new_Date P (now - (int dow - 1) * 86400000)
            in d \<ge> ds mon)
         else if period = ''month'' then take 7 d = take 7 today
         else if period = ''year'' then take 4 d = take 4 today
         else True)"

text \<open>The comparator of the final sort: a negative result puts \<open>a\<close> first.\<close>

definition compare_expenses :: "platform \<Rightarrow> nat \<times> expense \<Rightarrow> nat \<times> expense \<Rightarrow> real" where
  "compare_expenses P a b =
     (let c = real_of_int (localeCompare P (date (snd b)) (date (snd a)));
          h = hour (snd b) - hour (snd a);
          m = minute (snd b) - minute (snd a);
          t = real_of_int (ts (snd b) - ts (snd a))
      in if c \<noteq> 0 then c else if h \<noteq> 0 then h else if m \<noteq> 0 then m else t)"

text \<open>\<^verbatim>\<open>Array.prototype.sort\<close> is stable; it is modelled by insertion from the right,
  which puts an element before the first one it does not have to follow.\<close>

fun insert_by :: "('a \<Rightarrow> 'a \<Rightarrow> real) \<Rightarrow> 'a \<Rightarrow> 'a list \<Rightarrow> 'a list" where
  "insert_by cmp x [] = [x]"
| "insert_by cmp x (y # ys) = (if cmp x y \<le> 0 then x # y # ys else y # insert_by cmp x ys)"

definition sort_by :: "('a \<Rightarrow> 'a \<Rightarrow> real) \<Rightarrow> 'a list \<Rightarrow> 'a list" where
  "sort_by cmp xs = foldr (insert_by cmp) xs []"

text \<open>An omitted \<^verbatim>\<open>period\<close> is \<^verbatim>\<open>'all'\<close>, an omitted \<^verbatim>\<open>category\<close> is \<^verbatim>\<open>'Toutes'\<close>.\<close>

definition getExpenses ::
  "platform \<Rightarrow> int \<Rightarrow> store \<Rightarrow> nat \<Rightarrow> string option \<Rightarrow> string option \<Rightarrow> (nat \<times> expense) list" where
  "getExpenses P now st userId period categ =
     (let per = (case period of None \<Rightarrow> ''all'' | Some p \<Rightarrow> p);
          cat = (case categ of None \<Rightarrow> ''Toutes'' | Some c \<Rightarrow> c);
          all = db_getAllFromStore (expenses st);
          list = filter (\<lambda>e. user_id (snd e) = userId) all;
          list = filter (\<lambda>e. in_period P now per (date (snd e))) list;
          list = (if cat \<noteq> [] \<and> cat \<noteq> ''Toutes''
                  then filter (\<lambda>e. category (snd e) = cat) list else list)
      in sort_by (compare_expenses P) list)"

definition deleteExpense :: "store \<Rightarrow> nat \<Rightarrow> nat \<Rightarrow> (error + bool) \<times> store" where
  "deleteExpense st userId ident =
     (case db_get (expenses st) ident of
        None \<Rightarrow> (Inl ExpenseNotFound, st)
      | Some e \<Rightarrow>
          if user_id e \<noteq> userId then (Inl ExpenseNotFound, st)
          else (Inr True, st\<lparr>expenses := db_delete (expenses st) ident\<rparr>))"

subsection \<open>Statistics\<close>

text \<open>
  \<^verbatim>\<open>statsByCategory\<close> collects its sums in an object \<^verbatim>\<open>{}\<close>. Reading a key the object does
  not have itself gives what \<^verbatim>\<open>Object.prototype\<close> has under that name, a function or (for
  \<^verbatim>\<open>__proto__\<close>) the prototype object, and \<^verbatim>\<open>undefined\<close> for any other name. Adding a number
  to a function, an object or a string gives a string: such a value is kept as
  \<open>StringProp\<close>, its text is not modelled.
\<close>

datatype jsprop = NumberProp real | StringProp

definition Object_prototype :: "string list" where
  "Object_prototype =
     [''constructor'', ''__defineGetter__'', ''__defineSetter__'', ''hasOwnProperty'',
      ''__lookupGetter__'', ''__lookupSetter__'', ''isPrototypeOf'', ''propertyIsEnumerable'',
      ''toString'', ''valueOf'', ''__proto__'', ''toLocaleString'']"

text \<open>The step of the \<^verbatim>\<open>reduce\<close>: \<^verbatim>\<open>acc[e.category] = (acc[e.category] || 0) + e.amount\<close>.
  A number that is 0 is falsy; a string assigned to \<^verbatim>\<open>__proto__\<close> is ignored by its setter.\<close>

definition add_to_category :: "nat \<times> expense \<Rightarrow> (string \<rightharpoonup> jsprop) \<Rightarrow> (string \<rightharpoonup> jsprop)" where
  "add_to_category e acc =
     (let c = category (snd e)
      in if c = ''__proto__'' then acc
         else (case acc c of
                 Some (NumberProp v) \<Rightarrow>
                   acc(c \<mapsto> NumberProp (num_add (if v = 0 then 0 else v) (amount (snd e))))
               | Some StringProp \<Rightarrow> acc(c \<mapsto> StringProp)
               | None \<Rightarrow>
                   if c \<in> set Object_prototype then acc(c \<mapsto> StringProp)
                   else acc(c \<mapsto> NumberProp (num_add 0 (amount (snd e))))))"

definition statsByCategory ::
  "platform \<Rightarrow> int \<Rightarrow> store \<Rightarrow> nat \<Rightarrow> string option \<Rightarrow> (string \<rightharpoonup> jsprop)" where
  "statsByCategory P now st userId period =
     (let list = getExpenses P now st userId period (Some ''Toutes'')
      in fold add_to_category list Map.empty)"

definition MN :: "string list" where
  "MN = [''Jan'', [CHR ''F'', CHR 0xE9, CHR ''v''], ''Mar'', ''Avr'', ''Mai'', ''Jun'', ''Jul'',
         [CHR ''A'', CHR ''o'', CHR 0xFB], ''Sep'', ''Oct'', ''Nov'', [CHR ''D'', CHR 0xE9, CHR ''c'']]"

text \<open>Year and month (\<^verbatim>\<open>getFullYear\<close>, \<^verbatim>\<open>getMonth\<close>) of \<^verbatim>\<open>new Date(y, m, 1)\<close>: a year from
  0 to 99 stands for 1900 + y, and a month outside 0..11 carries into the year.\<close>

definition Date_y_m_1 :: "int \<Rightarrow> int \<Rightarrow> int \<times> nat" where
  "Date_y_m_1 y m =
     (let yr = (if 0 \<le> y \<and> y \<le> 99 then 1900 + y else y)
      in (yr + m div 12, nat (m mod 12)))"

text \<open>The keys \<^verbatim>\<open>'YYYY-MM'\<close> of the twelve months.\<close>

definition month_keys :: "platform \<Rightarrow> int \<Rightarrow> string list" where
  "month_keys P now =
     map (\<lambda>i. let d = Date_y_m_1 (getFullYear (new_Date P now))
                        (int (getMonth (new_Date P now)) - 11 + int i)
              in String_int (fst d) @ ''-'' @ padStart2 (show_nat (snd d + 1)))
       [0 ..< 12]"

text \<open>\<^verbatim>\<open>xs[n]\<close> for a number \<open>n\<close>: \<^verbatim>\<open>undefined\<close> unless \<open>n\<close> is an index of the array.\<close>

fun index_num :: "'a list \<Rightarrow> jsnum \<Rightarrow> 'a option" where
  "index_num xs NaN = None"
| "index_num xs (Num r) = (if r = of_int \<lfloor>r\<rfloor> \<and> 0 \<le> r then elem_at xs (nat \<lfloor>r\<rfloor>) else None)"

fun minus1 :: "jsnum \<Rightarrow> jsnum" where
  "minus1 NaN = NaN"
| "minus1 (Num r) = Num (r - 1)"

text \<open>The label of a key: \<^verbatim>\<open>const [y, m] = k.split('-'); `${MN[+m - 1]} ${y}`\<close>\<close>

definition month_label :: "platform \<Rightarrow> string \<Rightarrow> string" where
  "month_label P k =
     (let parts = split_on CHR ''-'' k;
          y = elem_at parts 0;
          m = elem_at parts 1
      in String_of (index_num MN (minus1 (case m of None \<Rightarrow> NaN | Some s \<Rightarrow> string_to_number P s)))
           @ '' '' @ String_of y)"

text \<open>\<^verbatim>\<open>if (k in map) map[k] += e.amount\<close>, for the key of an expense. The map holds the
  twelve keys, which are all that is read from it: a key that only \<^verbatim>\<open>Object.prototype\<close>
  has is none of them.\<close>

definition add_to_month :: "nat \<times> expense \<Rightarrow> (string \<rightharpoonup> real) \<Rightarrow> (string \<rightharpoonup> real)" where
  "add_to_month e m =
     (let k = take 7 (date (snd e))
      in (case m k of None \<Rightarrow> m | Some v \<Rightarrow> m(k \<mapsto> num_add v (amount (snd e)))))"

record month_stats =
  labels :: "string list"
  data :: "real option list"

definition statsByMonth :: "platform \<Rightarrow> int \<Rightarrow> store \<Rightarrow> nat \<Rightarrow> month_stats" where
  "statsByMonth P now st userId =
     (let all = db_getAllFromStore (expenses st);
          mine = filter (\<lambda>e. user_id (snd e) = userId) all;
          keys = month_keys P now;
          m0 = map_of (map (\<lambda>k. (k, 0)) keys);
          m = fold add_to_month mine m0
      in \<lparr>labels = map (month_label P) keys, data = map m keys\<rparr>)"

section \<open>An example platform\<close>

text \<open>A platform in the UTC time zone, used to run the model on concrete inputs: the
  proleptic Gregorian calendar, a collation by code unit, a conversion that reads plain
  decimal digit strings, and a stand-in for the digest.\<close>

definition utc_Date :: "int \<Rightarrow> js_date" where
  "utc_Date t =
     (let z = t div 86400000;
          z1 = z + 719468;
          era = z1 div 146097;
          doe = z1 - era * 146097;
          yoe = (doe - doe div 1460 + doe div 36524 - doe div 146096) div 365;
          doy = doe - (365 * yoe + yoe div 4 - yoe div 100);
          mp = (5 * doy + 2) div 153;
          d = doy - (153 * mp + 2) div 5 + 1;
          m = (if mp < 10 then mp + 3 else mp - 9);
          y = yoe + era * 400 + (if m \<le> 2 then 1 else 0)
      in \<lparr>getFullYear = y, getMonth = nat (m - 1), getDate = nat d, getDay = nat ((z + 4) mod 7)\<rparr>)"

definition codeunit_compare :: "string \<Rightarrow> string \<Rightarrow> int" where
  "codeunit_compare a b = (if a < b then - 1 else if a = b then 0 else 1)"

fun digits_value :: "string \<Rightarrow> nat \<Rightarrow> nat option" where
  "digits_value [] acc = Some acc"
| "digits_value (c # cs) acc =
     (if CHR ''0'' \<le> c \<and> c \<le> CHR ''9''
      then digits_value cs (10 * acc + (of_char c - 48)) else None)"

definition digits_to_number :: "string \<Rightarrow> jsnum" where
  "digits_to_number s = (case digits_value s 0 of None \<Rightarrow> NaN | Some n \<Rightarrow> Num (real n))"

definition utc_platform :: platform where
  "utc_platform = \<lparr>sha256_hex = rev, string_to_number = digits_to_number,
                    localeCompare = codeunit_compare, new_Date = utc_Date\<rparr>"

text \<open>Noon of Sunday 10 March 2024 (UTC), and a store with five expenses of two users.\<close>

definition noon :: int where
  "noon = 1710072000000"

definition example_store :: store where
  "example_store =
     \<lparr>users = \<lparr>rows = [], keygen = 0\<rparr>,
      expenses = \<lparr>rows =
        [(1, \<lparr>user_id = 1, name = ''Taxi'', amount = 1500, category = ''Transport'',
               date = ''2024-03-10'', hour = 8, minute = 30, ts = 1000\<rparr>),
         (2, \<lparr>user_id = 1, name = ''Pain'', amount = 2.5, category = ''Alimentation'',
               date = ''2024-03-10'', hour = 12, minute = 5, ts = 2000\<rparr>),
         (3, \<lparr>user_id = 2, name = ''Cinema'', amount = 12, category = ''Loisirs'',
               date = ''2024-03-10'', hour = 20, minute = 0, ts = 3000\<rparr>),
         (4, \<lparr>user_id = 1, name = ''Bus'', amount = 1.25, category = ''Transport'',
               date = ''2024-01-09'', hour = 7, minute = 15, ts = 4000\<rparr>),
         (5, \<lparr>user_id = 1, name = ''Cafe'', amount = 3, category = ''Alimentation'',
               date = ''2024-03-10'', hour = 12, minute = 5, ts = 5000\<rparr>)],
        keygen = 5\<rparr>\<rparr>"

text \<open>A store whose amounts are the binary64 values nearest to 0.1, 0.2 and 0.4: three
  expenses of user 1, two of March 2024 and one of February.\<close>

definition rounding_store :: store where
  "rounding_store =
     \<lparr>users = \<lparr>rows = [], keygen = 0\<rparr>,
      expenses = \<lparr>rows =
        [(1, \<lparr>user_id = 1, name = ''Pain'', amount = 3602879701896397 / 36028797018963968,
               category = ''Alimentation'', date = ''2024-03-01'', hour = 0, minute = 0, ts = 1000\<rparr>),
         (2, \<lparr>user_id = 1, name = ''Lait'', amount = 3602879701896397 / 18014398509481984,
               category = ''Alimentation'', date = ''2024-02-10'', hour = 0, minute = 0, ts = 2000\<rparr>),
         (3, \<lparr>user_id = 1, name = ''Cafe'', amount = 3602879701896397 / 9007199254740992,
               category = ''Alimentation'', date = ''2024-03-05'', hour = 0, minute = 0, ts = 3000\<rparr>)],
        keygen = 3\<rparr>\<rparr>"

text \<open>The expense of the specification's example scenario.\<close>

definition taxi :: expense_input where
  "taxi = \<lparr>in_name = Some ''Taxi'', in_amount = JNum (Num 1500), in_category = Some ''Transport'',
            in_date = Some ''2024-03-10'', in_hour = JNum (Num 8), in_minute = JNum (Num 30)\<rparr>"


text \<open>An expense at 25 hours 75.\<close>

definition late :: expense_input where
  "late = \<lparr>in_name = Some ''Taxi'', in_amount = JNum (Num 1500), in_category = Some ''Transport'',
            in_date = Some ''2024-03-10'', in_hour = JNum (Num 25), in_minute = JNum (Num 75)\<rparr>"

text \<open>An expense of amount zero.\<close>

definition free :: expense_input where
  "free = \<lparr>in_name = Some ''Taxi'', in_amount = JNum (Num 0), in_category = Some ''Transport'',
            in_date = Some ''2024-03-10'', in_hour = JNum (Num 8), in_minute = JNum (Num 30)\<rparr>"

section \<open>The sort\<close>

lemma mset_insert_by: "mset (insert_by cmp x xs) = add_mset x (mset xs)"
  by (induction xs) auto

lemma mset_sort_by: "mset (sort_by cmp xs) = mset xs"
  unfolding sort_by_def by (induction xs) (auto simp: mset_insert_by)

lemma set_insert_by: "set (insert_by cmp x xs) = insert x (set xs)"
  by (induction xs) auto

lemma set_sort_by: "set (sort_by cmp xs) = set xs"
  unfolding sort_by_def by (induction xs) (auto simp: set_insert_by)

lemma sorted_wrt_insert_by:
  assumes trans: "\<And>a b c. a \<in> A \<Longrightarrow> b \<in> A \<Longrightarrow> c \<in> A \<Longrightarrow> cmp a b \<le> 0 \<Longrightarrow> cmp b c \<le> 0 \<Longrightarrow> cmp a c \<le> 0"
    and total: "\<And>a b. a \<in> A \<Longrightarrow> b \<in> A \<Longrightarrow> cmp a b \<le> 0 \<or> cmp b a \<le> 0"
    and "x \<in> A" and "set ys \<subseteq> A" and "sorted_wrt (\<lambda>a b. cmp a b \<le> 0) ys"
  shows "sorted_wrt (\<lambda>a b. cmp a b \<le> 0) (insert_by cmp x ys)"
  using assms(3-)
proof (induction ys)
  case Nil
  then show ?case by simp
next
  case (Cons y ys)
  have xA: "x \<in> A" and yA: "y \<in> A" and ysA: "set ys \<subseteq> A"
    using Cons.prems(1,2) by auto
  have y_first: "\<forall>z\<in>set ys. cmp y z \<le> 0" and sorted_ys: "sorted_wrt (\<lambda>a b. cmp a b \<le> 0) ys"
    using Cons.prems(3) by auto
  show ?case
  proof (cases "cmp x y \<le> 0")
    case True
    have "cmp x z \<le> 0" if "z \<in> set ys" for z
      using trans[OF xA yA _ True, of z] y_first ysA that by blast
    then show ?thesis using True y_first sorted_ys by simp
  next
    case False
    have yx: "cmp y x \<le> 0"
      using total[OF xA yA] False by blast
    have IH: "sorted_wrt (\<lambda>a b. cmp a b \<le> 0) (insert_by cmp x ys)"
      by (rule Cons.IH[OF xA ysA sorted_ys])
    show ?thesis using False yx y_first IH by (simp add: set_insert_by)
  qed
qed

lemma sorted_wrt_sort_by:
  assumes trans: "\<And>a b c. a \<in> A \<Longrightarrow> b \<in> A \<Longrightarrow> c \<in> A \<Longrightarrow> cmp a b \<le> 0 \<Longrightarrow> cmp b c \<le> 0 \<Longrightarrow> cmp a c \<le> 0"
    and total: "\<And>a b. a \<in> A \<Longrightarrow> b \<in> A \<Longrightarrow> cmp a b \<le> 0 \<or> cmp b a \<le> 0"
    and "set xs \<subseteq> A"
  shows "sorted_wrt (\<lambda>a b. cmp a b \<le> 0) (sort_by cmp xs)"
  using assms(3)
proof (induction xs)
  case Nil
  then show ?case by (simp add: sort_by_def)
next
  case (Cons x xs)
  have xA: "x \<in> A" and xsA: "set xs \<subseteq> A" using Cons.prems by auto
  have "sorted_wrt (\<lambda>a b. cmp a b \<le> 0) (insert_by cmp x (sort_by cmp xs))"
  proof (rule sorted_wrt_insert_by[where A = A])
    show "set (sort_by cmp xs) \<subseteq> A" using xsA by (simp add: set_sort_by)
    show "sorted_wrt (\<lambda>a b. cmp a b \<le> 0) (sort_by cmp xs)" by (rule Cons.IH[OF xsA])
  qed (use trans total xA in blast)+
  then show ?case by (simp add: sort_by_def)
qed


text \<open>On expenses of one date the comparator orders by hour, minute and timestamp.\<close>

lemma compare_expenses_same_date:
  assumes "localeCompare P (date (snd b)) (date (snd a)) = 0"
  shows "compare_expenses P a b \<le> 0 \<longleftrightarrow>
           hour (snd b) < hour (snd a) \<or> hour (snd a) = hour (snd b) \<and>
             (minute (snd b) < minute (snd a) \<or> minute (snd a) = minute (snd b) \<and>
                ts (snd b) \<le> ts (snd a))"
  using assms by (auto simp: compare_expenses_def Let_def)

lemma getExpenses_today_unfold:
  assumes "categ \<in> {None, Some [], Some ''Toutes''}"
  shows "getExpenses P now st userId (Some ''today'') categ =
     sort_by (compare_expenses P)
       (filter (\<lambda>e. user_id (snd e) = userId \<and> date (snd e) = ds (new_Date P now))
          (rows (expenses st)))"
  using assms by (auto simp: getExpenses_def in_period_def db_getAllFromStore_def Let_def)

section \<open>Decimal strings\<close>

lemma digit_char_cases:
  assumes "d < 10"
  shows "digit_char d \<in> set ''0123456789''"
    and "CHR ''0'' \<le> digit_char d" and "digit_char d \<le> CHR ''9''"
    and "of_char (digit_char d) - 48 = d"
proof -
  have "d \<in> {0, 1, 2, 3, 4, 5, 6, 7, 8, 9}" using assms by auto
  then show "digit_char d \<in> set ''0123456789''"
    and "CHR ''0'' \<le> digit_char d" and "digit_char d \<le> CHR ''9''"
    and "of_char (digit_char d) - 48 = d"
    by (auto simp: digit_char_def less_eq_char_def)
qed

lemma set_show_nat: "set (show_nat n) \<subseteq> set ''0123456789''"
proof (induction n rule: show_nat.induct)
  case (1 n)
  show ?case
  proof (cases "n < 10")
    case True
    then show ?thesis using digit_char_cases(1)[of n] by (subst show_nat.simps) simp
  next
    case False
    then show ?thesis
      using 1 digit_char_cases(1)[of "n mod 10"] by (subst show_nat.simps) simp
  qed
qed

lemma length_show_nat:
  assumes "n < 100"
  shows "length (show_nat n) = (if n < 10 then 1 else 2)"
proof (cases "n < 10")
  case True
  then show ?thesis by (subst show_nat.simps) simp
next
  case False
  have "n div 10 < 10" using assms by simp
  then have "show_nat (n div 10) = [digit_char (n div 10)]"
    by (subst show_nat.simps) simp
  with False show ?thesis by (subst show_nat.simps) simp
qed

lemma digits_value_snoc:
  "d < 10 \<Longrightarrow> digits_value (cs @ [digit_char d]) acc = map_option (\<lambda>v. 10 * v + d) (digits_value cs acc)"
  by (induction cs arbitrary: acc) (simp_all add: digit_char_cases)

lemma digits_value_show_nat: "digits_value (show_nat n) 0 = Some n"
proof (induction n rule: show_nat.induct)
  case (1 n)
  show ?case
  proof (cases "n < 10")
    case True
    then show ?thesis
      using digits_value_snoc[of n "[]" 0] by (subst show_nat.simps) simp
  next
    case False
    then show ?thesis
      using 1 digits_value_snoc[of "n mod 10" "show_nat (n div 10)" 0]
      by (subst show_nat.simps) simp
  qed
qed

lemma show_nat_inj: "show_nat a = show_nat b \<Longrightarrow> a = b"
  by (metis digits_value_show_nat option.inject)

lemma digits_value_padStart2: "digits_value (padStart2 s) 0 = digits_value s 0"
proof -
  have "digits_value (replicate j CHR ''0'' @ s) 0 = digits_value s 0" for j
    by (induction j) simp_all
  then show ?thesis by (simp add: padStart2_def)
qed

lemma padStart2_show_nat_inj: "padStart2 (show_nat a) = padStart2 (show_nat b) \<Longrightarrow> a = b"
  by (metis digits_value_padStart2 digits_value_show_nat option.inject)

lemma length_padStart2_show_nat: "n < 100 \<Longrightarrow> length (padStart2 (show_nat n)) = 2"
  by (simp add: padStart2_def length_show_nat)

lemma set_padStart2_show_nat: "set (padStart2 (show_nat n)) \<subseteq> set ''0123456789''"
  using set_show_nat[of n] by (auto simp: padStart2_def)

lemma split_on_notin: "c \<notin> set xs \<Longrightarrow> split_on c xs = [xs]"
  by (induction xs) auto

lemma split_on_append: "c \<notin> set xs \<Longrightarrow> split_on c (xs @ c # ys) = xs # split_on c ys"
  by (induction xs) auto

section \<open>Keys\<close>

lemma keys_ok_emptyStore: "keys_ok emptyStore"
  by (simp add: keys_ok_def emptyStore_def)

lemma keys_ok_db_add: "keys_ok t \<Longrightarrow> keys_ok (snd (db_add t r))"
  by (fastforce simp: keys_ok_def db_add_def Let_def list_all_iff)

lemma keys_ok_db_delete: "keys_ok t \<Longrightarrow> keys_ok (db_delete t key)"
  by (auto simp: keys_ok_def db_delete_def list_all_iff distinct_map_filter)

text \<open>With such keys, \<^verbatim>\<open>_get\<close> finds exactly the records of the store, and a record that
  \<^verbatim>\<open>_add\<close> has stored is found under the key it returned.\<close>

lemma db_get_iff_stored: "keys_ok t \<Longrightarrow> db_get t key = Some r \<longleftrightarrow> (key, r) \<in> set (rows t)"
  by (simp add: keys_ok_def db_get_def)

lemma db_get_db_add:
  assumes "keys_ok t"
  shows "db_get (snd (db_add t r)) (fst (db_add t r)) = Some r"
proof -
  have "Suc (keygen t) \<notin> fst ` set (rows t)"
    using assms by (fastforce simp: keys_ok_def list_all_iff)
  then have "map_of (rows t) (Suc (keygen t)) = None"
    by (simp add: map_of_eq_None_iff)
  then show ?thesis
    by (simp add: db_get_def db_add_def Let_def map_add_def)
qed

lemma addExpense_store:
  "snd (addExpense P now st userId inp) = st
   \<or> (\<exists>r. snd (addExpense P now st userId inp) = st\<lparr>expenses := snd (db_add (expenses st) r)\<rparr>)"
  by (auto simp: addExpense_def Let_def split_beta split: jsnum.splits)

lemma keys_ok_addExpense:
  "keys_ok (expenses st) \<Longrightarrow> keys_ok (expenses (snd (addExpense P now st userId inp)))"
  using addExpense_store[of P now st userId inp] keys_ok_db_add[of "expenses st"]
  by auto

lemma keys_ok_deleteExpense:
  "keys_ok (expenses st) \<Longrightarrow> keys_ok (expenses (snd (deleteExpense st userId ident)))"
  by (auto simp: deleteExpense_def keys_ok_db_delete split: option.splits)

lemma keys_ok_createUser:
  "keys_ok (users st) \<Longrightarrow> keys_ok (users (snd (createUser P now st uname pin)))"
  using keys_ok_db_add[of "users st"]
  by (auto simp: createUser_def Let_def split_beta split: option.splits)

text \<open>A category other than the empty string and \<^verbatim>\<open>'Toutes'\<close> is a filter: the string
  \<^verbatim>\<open>'all'\<close> too.\<close>

lemma getExpenses_category:
  assumes "c \<noteq> []" and "c \<noteq> ''Toutes''"
  shows "set (getExpenses P now st userId period (Some c)) \<subseteq> {e. category (snd e) = c}"
  using assms by (auto simp: getExpenses_def Let_def set_sort_by)

text \<open>A name that is in use cannot be registered, whatever happened since it was.\<close>

lemma createUser_name_in_use:
  assumes "db_findOne (users st) username (toLowerCase (trim uname)) = Some r"
    and "2 \<le> length (toLowerCase (trim uname))"
  shows "createUser P now st uname pin = (Inl DuplicateUser, st)"
  using assms by (simp add: createUser_def)

section \<open>The example platform at noon\<close>

lemma today_noon:
  "new_Date utc_platform noon = \<lparr>getFullYear = 2024, getMonth = 2, getDate = 10, getDay = 0\<rparr>"
  by code_simp

lemma ds_noon: "ds (new_Date utc_platform noon) = ''2024-03-10''"
  unfolding today_noon
  by (simp add: ds_def String_int_def padStart2_def show_nat.simps digit_char_def)

lemma upt_12: "[0 ..< 12] = [0, 1, 2, 3, 4, 5, 6, 7, 8, 9, 10, 11]"
  by (simp add: upt_rec)

lemma month_keys_noon:
  "month_keys utc_platform noon =
    [''2023-04'', ''2023-05'', ''2023-06'', ''2023-07'', ''2023-08'', ''2023-09'',
     ''2023-10'', ''2023-11'', ''2023-12'', ''2024-01'', ''2024-02'', ''2024-03'']"
  unfolding month_keys_def today_noon upt_12
  by (simp add: Date_y_m_1_def String_int_def padStart2_def show_nat.simps digit_char_def)

section \<open>Reading expenses\<close>

text \<open>
  C1. \<^verbatim>\<open>getExpenses(userId, 'today', category)\<close> for all categories (the
  specification's \<open>query(userId, 'today', all)\<close>; in the code the category is
  \<^verbatim>\<open>'Toutes'\<close>, empty or omitted) returns exactly the stored expenses of the user whose
  date is the current date, each as often as it is stored, ordered descending by date,
  then hour, then minute, then insertion timestamp. The collation is only asked to find a
  string equal to itself.
\<close>

theorem getExpenses_today:
  assumes "\<forall>s. localeCompare P s s = 0"
    and "categ \<in> {None, Some [], Some ''Toutes''}"
  shows "mset (getExpenses P now st userId (Some ''today'') categ) =
           mset (filter (\<lambda>e. user_id (snd e) = userId \<and> date (snd e) = ds (new_Date P now))
                  (rows (expenses st)))
       \<and> sorted_wrt (\<lambda>a b.
            date (snd b) < date (snd a) \<or> date (snd a) = date (snd b) \<and>
              (hour (snd b) < hour (snd a) \<or> hour (snd a) = hour (snd b) \<and>
                (minute (snd b) < minute (snd a) \<or> minute (snd a) = minute (snd b) \<and>
                   ts (snd b) \<le> ts (snd a))))
           (getExpenses P now st userId (Some ''today'') categ)"
proof -
  let ?today = "ds (new_Date P now)"
  let ?A = "{e :: nat \<times> expense. date (snd e) = ?today}"
  let ?xs = "filter (\<lambda>e. user_id (snd e) = userId \<and> date (snd e) = ?today) (rows (expenses st))"
  have same: "compare_expenses P a b \<le> 0 \<longleftrightarrow>
           hour (snd b) < hour (snd a) \<or> hour (snd a) = hour (snd b) \<and>
             (minute (snd b) < minute (snd a) \<or> minute (snd a) = minute (snd b) \<and>
                ts (snd b) \<le> ts (snd a))" if "a \<in> ?A" "b \<in> ?A" for a b
    using that assms(1) by (intro compare_expenses_same_date) simp
  have sorted: "sorted_wrt (\<lambda>a b. compare_expenses P a b \<le> 0) (sort_by (compare_expenses P) ?xs)"
  proof (rule sorted_wrt_sort_by[where A = ?A])
    fix a b c assume "a \<in> ?A" "b \<in> ?A" "c \<in> ?A"
      and "compare_expenses P a b \<le> 0" "compare_expenses P b c \<le> 0"
    then show "compare_expenses P a c \<le> 0"
      unfolding same[OF \<open>a \<in> ?A\<close> \<open>b \<in> ?A\<close>] same[OF \<open>b \<in> ?A\<close> \<open>c \<in> ?A\<close>]
        same[OF \<open>a \<in> ?A\<close> \<open>c \<in> ?A\<close>] by linarith
  next
    fix a b assume "a \<in> ?A" "b \<in> ?A"
    then show "compare_expenses P a b \<le> 0 \<or> compare_expenses P b a \<le> 0"
      unfolding same[OF \<open>a \<in> ?A\<close> \<open>b \<in> ?A\<close>] same[OF \<open>b \<in> ?A\<close> \<open>a \<in> ?A\<close>] by linarith
  next
    show "set ?xs \<subseteq> ?A" by auto
  qed
  have "sorted_wrt (\<lambda>a b.
            date (snd b) < date (snd a) \<or> date (snd a) = date (snd b) \<and>
              (hour (snd b) < hour (snd a) \<or> hour (snd a) = hour (snd b) \<and>
                (minute (snd b) < minute (snd a) \<or> minute (snd a) = minute (snd b) \<and>
                   ts (snd b) \<le> ts (snd a)))) (sort_by (compare_expenses P) ?xs)"
  proof (rule sorted_wrt_mono_rel[OF _ sorted])
    fix a b assume "a \<in> set (sort_by (compare_expenses P) ?xs)" "b \<in> set (sort_by (compare_expenses P) ?xs)"
      and le: "compare_expenses P a b \<le> 0"
    then have "a \<in> ?A" "b \<in> ?A" by (auto simp: set_sort_by)
    with le same[of a b] show "date (snd b) < date (snd a) \<or> date (snd a) = date (snd b) \<and>
              (hour (snd b) < hour (snd a) \<or> hour (snd a) = hour (snd b) \<and>
                (minute (snd b) < minute (snd a) \<or> minute (snd a) = minute (snd b) \<and>
                   ts (snd b) \<le> ts (snd a)))" by auto
  qed
  then show ?thesis
    unfolding getExpenses_today_unfold[OF assms(2)] by (simp add: mset_sort_by)
qed

theorem getExpenses_today_witness:
  "(\<forall>s. localeCompare utc_platform s s = 0)
   \<and> map fst (getExpenses utc_platform noon example_store 1 (Some ''today'') (Some ''Toutes'')) = [5, 2, 1]
   \<and> mset (getExpenses utc_platform noon example_store 1 (Some ''today'') (Some ''Toutes'')) =
       mset (filter (\<lambda>e. user_id (snd e) = 1 \<and> date (snd e) = ds (new_Date utc_platform noon))
              (rows (expenses example_store)))
   \<and> sorted_wrt (\<lambda>a b.
            date (snd b) < date (snd a) \<or> date (snd a) = date (snd b) \<and>
              (hour (snd b) < hour (snd a) \<or> hour (snd a) = hour (snd b) \<and>
                (minute (snd b) < minute (snd a) \<or> minute (snd a) = minute (snd b) \<and>
                   ts (snd b) \<le> ts (snd a))))
           (getExpenses utc_platform noon example_store 1 (Some ''today'') (Some ''Toutes''))"
proof -
  have refl: "\<forall>s. localeCompare utc_platform s s = 0"
    by (simp add: utc_platform_def codeunit_compare_def)
  have sentinel: "Some ''Toutes'' \<in> {None, Some [], Some ''Toutes''}"
    by simp
  have run: "map fst (getExpenses utc_platform noon example_store 1 (Some ''today'') (Some ''Toutes'')) = [5, 2, 1]"
    unfolding getExpenses_today_unfold[OF sentinel] ds_noon by code_simp
  show ?thesis
    using refl run getExpenses_today[OF refl sentinel, of noon example_store 1] by blast
qed

text \<open>
  C10. A period other than \<^verbatim>\<open>'today'\<close>, \<^verbatim>\<open>'3days'\<close>, \<^verbatim>\<open>'week'\<close>, \<^verbatim>\<open>'month'\<close> and
  \<^verbatim>\<open>'year'\<close> (the omitted one, \<^verbatim>\<open>'all'\<close>, any other string) applies no date filter:
  the result is the user's expenses, filtered by category only and sorted, the same as
  for \<^verbatim>\<open>'all'\<close>.
\<close>

theorem getExpenses_other_period:
  assumes "period \<notin> {Some ''today'', Some ''3days'', Some ''week'', Some ''month'', Some ''year''}"
  shows "getExpenses P now st userId period categ = getExpenses P now st userId (Some ''all'') categ
       \<and> getExpenses P now st userId period categ =
           sort_by (compare_expenses P)
             (filter (\<lambda>e. categ \<in> {None, Some [], Some ''Toutes''} \<or> Some (category (snd e)) = categ)
               (filter (\<lambda>e. user_id (snd e) = userId) (rows (expenses st))))"
proof -
  have "in_period P now (case period of None \<Rightarrow> ''all'' | Some p \<Rightarrow> p) d" for d
    using assms by (auto simp: in_period_def Let_def split: option.splits)
  moreover have "in_period P now ''all'' d" for d
    by (simp add: in_period_def)
  ultimately show ?thesis
    by (auto simp: getExpenses_def db_getAllFromStore_def Let_def split: option.splits)
qed

theorem getExpenses_other_period_witness:
  "Some ''forever'' \<notin> {Some ''today'', Some ''3days'', Some ''week'', Some ''month'', Some ''year''}
   \<and> None \<notin> {Some ''today'', Some ''3days'', Some ''week'', Some ''month'', Some ''year''}
   \<and> getExpenses utc_platform noon example_store 1 (Some ''forever'') (Some ''Transport'') =
       getExpenses utc_platform noon example_store 1 (Some ''all'') (Some ''Transport'')
   \<and> getExpenses utc_platform noon example_store 1 None (Some ''Transport'') =
       getExpenses utc_platform noon example_store 1 (Some ''all'') (Some ''Transport'')
   \<and> map fst (getExpenses utc_platform noon example_store 1 (Some ''forever'') (Some ''Transport'')) = [1, 4]"
proof -
  have p1: "Some ''forever'' \<notin> {Some ''today'', Some ''3days'', Some ''week'', Some ''month'', Some ''year''}"
    and p2: "None \<notin> {Some ''today'', Some ''3days'', Some ''week'', Some ''month'', Some ''year''}"
    by simp_all
  have run: "map fst (getExpenses utc_platform noon example_store 1 (Some ''forever'') (Some ''Transport'')) = [1, 4]"
    by code_simp
  show ?thesis
    using p1 p2 run
      getExpenses_other_period[OF p1, of utc_platform noon example_store 1 "Some ''Transport''"]
      getExpenses_other_period[OF p2, of utc_platform noon example_store 1 "Some ''Transport''"]
    by simp
qed

section \<open>Users\<close>

lemma find_append_last:
  "find Q xs = None \<Longrightarrow> Q y \<Longrightarrow> find Q (xs @ [y]) = Some y"
  by (induction xs) (auto split: if_splits)

text \<open>What a successful \<^verbatim>\<open>createUser\<close> has done.\<close>

lemma createUser_success:
  assumes "createUser P now st uname pin = (Inr r, st')"
  shows "r = (Suc (keygen (users st)), toLowerCase (trim uname))"
    and "st' = st\<lparr>users := \<lparr>rows = rows (users st) @
              [(Suc (keygen (users st)),
                \<lparr>username = toLowerCase (trim uname), pinHash = hash P pin, createdAt = now\<rparr>)],
              keygen = Suc (keygen (users st))\<rparr>\<rparr>"
    and "find (\<lambda>r. username (snd r) = toLowerCase (trim uname)) (rows (users st)) = None"
    and "2 \<le> length (toLowerCase (trim uname))"
  using assms
  by (auto simp: createUser_def db_findOne_def db_add_def Let_def
      split: if_splits option.splits)

lemma findOne_after_createUser:
  assumes "createUser P now st uname pin = (Inr r, st')"
  shows "db_findOne (users st') username (toLowerCase (trim uname)) =
           Some (fst r, \<lparr>username = toLowerCase (trim uname), pinHash = hash P pin, createdAt = now\<rparr>)"
  unfolding db_findOne_def createUser_success(1,2)[OF assms]
  using createUser_success(3)[OF assms] by (simp add: find_append_last)

text \<open>
  C5. When \<^verbatim>\<open>createUser(username, pin)\<close> succeeds and returns an id, \<^verbatim>\<open>verifyUser\<close> with
  the same username and PIN on the store it leaves succeeds and returns the same id and
  the same normalised username: the hash is a function of the PIN.
\<close>

theorem createUser_then_verifyUser:
  assumes "createUser P now st uname pin = (Inr (ident, u), st')"
  shows "verifyUser P st' uname pin = Inr (ident, u) \<and> u = toLowerCase (trim uname)"
  using findOne_after_createUser[OF assms] createUser_success(1)[OF assms]
  by (simp add: verifyUser_def)

theorem createUser_then_verifyUser_witness:
  "fst (createUser utc_platform noon openDB '' Awa'' ''1234'') = Inr (1, ''awa'')
   \<and> verifyUser utc_platform (snd (createUser utc_platform noon openDB '' Awa'' ''1234''))
        '' Awa'' ''1234'' = Inr (1, ''awa'')"
proof -
  have run: "fst (createUser utc_platform noon openDB '' Awa'' ''1234'') = Inr (1, ''awa'')"
    by code_simp
  then have "createUser utc_platform noon openDB '' Awa'' ''1234'' =
               (Inr (1, ''awa''), snd (createUser utc_platform noon openDB '' Awa'' ''1234''))"
    by (simp add: prod_eq_iff)
  from createUser_then_verifyUser[OF this] run show ?thesis by simp
qed

text \<open>
  C6. After a successful \<^verbatim>\<open>createUser\<close>, a second call whose username normalises (trim,
  lower case) to the same name fails with the duplicate-user error (\<open>Ce nom est deja
  utilise\<close>), whatever its PIN, and leaves the store as it was: no second record.
\<close>

theorem createUser_duplicate:
  assumes "createUser P now st uname pin = (Inr r, st')"
    and "toLowerCase (trim uname') = toLowerCase (trim uname)"
  shows "createUser P now' st' uname' pin' = (Inl DuplicateUser, st')"
  using findOne_after_createUser[OF assms(1)] createUser_success(4)[OF assms(1)] assms(2)
  by (simp add: createUser_def)

theorem createUser_duplicate_witness:
  "fst (createUser utc_platform noon openDB '' Awa'' ''1234'') = Inr (1, ''awa'')
   \<and> toLowerCase (trim ''AWA  '') = toLowerCase (trim '' Awa'')
   \<and> createUser utc_platform (noon + 1) (snd (createUser utc_platform noon openDB '' Awa'' ''1234''))
        ''AWA  '' ''9999''
       = (Inl DuplicateUser, snd (createUser utc_platform noon openDB '' Awa'' ''1234''))
   \<and> db_count (users (snd (createUser utc_platform noon openDB '' Awa'' ''1234''))) = 1"
proof -
  have run: "fst (createUser utc_platform noon openDB '' Awa'' ''1234'') = Inr (1, ''awa'')"
    by code_simp
  then have first: "createUser utc_platform noon openDB '' Awa'' ''1234'' =
               (Inr (1, ''awa''), snd (createUser utc_platform noon openDB '' Awa'' ''1234''))"
    by (simp add: prod_eq_iff)
  have same: "toLowerCase (trim ''AWA  '') = toLowerCase (trim '' Awa'')"
    by code_simp
  have count: "db_count (users (snd (createUser utc_platform noon openDB '' Awa'' ''1234''))) = 1"
    by code_simp
  from createUser_duplicate[OF first same, of "noon + 1" "''9999''"] run same count
  show ?thesis by simp
qed

section \<open>Writing expenses\<close>

text \<open>
  C3. \<^verbatim>\<open>deleteExpense(B, id)\<close> on an expense that belongs to another user fails with the
  not-found error (\<open>Depense introuvable\<close>) and the store is the one before the call, so
  the record is still there; the same error is raised when no expense has the id.
\<close>

theorem deleteExpense_not_owner:
  assumes "db_get (expenses st) ident = None
           \<or> (\<exists>e. db_get (expenses st) ident = Some e \<and> user_id e \<noteq> userId)"
  shows "deleteExpense st userId ident = (Inl ExpenseNotFound, st)
       \<and> db_get (expenses (snd (deleteExpense st userId ident))) ident = db_get (expenses st) ident"
  using assms by (auto simp: deleteExpense_def)

theorem deleteExpense_not_owner_witness:
  "db_get (expenses example_store) 3 =
      Some \<lparr>user_id = 2, name = ''Cinema'', amount = 12, category = ''Loisirs'',
            date = ''2024-03-10'', hour = 20, minute = 0, ts = 3000\<rparr>
   \<and> deleteExpense example_store 1 3 = (Inl ExpenseNotFound, example_store)
   \<and> db_get (expenses example_store) 99 = None
   \<and> deleteExpense example_store 1 99 = (Inl ExpenseNotFound, example_store)"
proof -
  have cinema: "db_get (expenses example_store) 3 =
      Some \<lparr>user_id = 2, name = ''Cinema'', amount = 12, category = ''Loisirs'',
            date = ''2024-03-10'', hour = 20, minute = 0, ts = 3000\<rparr>"
    by (simp add: example_store_def db_get_def)
  have absent: "db_get (expenses example_store) 99 = None"
    by (simp add: example_store_def db_get_def)
  have "deleteExpense example_store 1 3 = (Inl ExpenseNotFound, example_store)"
    using deleteExpense_not_owner[of example_store 3 1] cinema by simp
  moreover have "deleteExpense example_store 1 99 = (Inl ExpenseNotFound, example_store)"
    using deleteExpense_not_owner[of example_store 99 1] absent by simp
  ultimately show ?thesis using cinema absent by simp
qed

text \<open>
  C4. When the amount converts to zero, to a negative number or to \<^verbatim>\<open>NaN\<close> (it is not
  numeric), \<^verbatim>\<open>addExpense\<close> fails with a validation error: \<open>Le nom est requis\<close> when the
  name is missing too, \<open>Montant invalide\<close> otherwise. Nothing is written: the store, and
  so the number of expenses, is unchanged.
\<close>

theorem addExpense_invalid_amount:
  assumes "Number P (in_amount inp) = NaN \<or> (\<exists>a. Number P (in_amount inp) = Num a \<and> a \<le> 0)"
  shows "fst (addExpense P now st userId inp) =
           Inl (if truthy (map_option trim (in_name inp)) then InvalidAmount else NameRequired)
       \<and> snd (addExpense P now st userId inp) = st
       \<and> db_count (expenses (snd (addExpense P now st userId inp))) = db_count (expenses st)"
  using assms by (auto simp: addExpense_def)

theorem addExpense_invalid_amount_witness:
  "Number utc_platform (in_amount free) = Num 0
   \<and> addExpense utc_platform noon example_store 1 free = (Inl InvalidAmount, example_store)
   \<and> Number utc_platform (in_amount (free\<lparr>in_amount := JStr ''abc''\<rparr>)) = NaN
   \<and> addExpense utc_platform noon example_store 1 (free\<lparr>in_amount := JStr ''abc''\<rparr>)
       = (Inl InvalidAmount, example_store)
   \<and> db_count (expenses example_store) = 5"
proof -
  have zero: "Number utc_platform (in_amount free) = Num 0"
    by (simp add: free_def)
  have nan: "Number utc_platform (in_amount (free\<lparr>in_amount := JStr ''abc''\<rparr>)) = NaN"
    by (simp add: utc_platform_def digits_to_number_def)
  have name: "truthy (map_option trim (in_name free))"
    by (simp add: free_def trim_def is_space_def)
  have count: "db_count (expenses example_store) = 5"
    by (simp add: example_store_def db_count_def)
  show ?thesis
    using zero nan name count
      addExpense_invalid_amount[of utc_platform free noon example_store 1]
      addExpense_invalid_amount[of utc_platform "free\<lparr>in_amount := JStr ''abc''\<rparr>" noon example_store 1]
    by (simp add: prod_eq_iff)
qed

text \<open>What a successful \<^verbatim>\<open>addExpense\<close> has done: the input was valid and one record, built
  from it, was appended under the next key.\<close>

lemma addExpense_valid:
  assumes "in_name inp = Some n" and "trim n \<noteq> []"
    and "Number P (in_amount inp) = Num a" and "0 < a"
    and "in_date inp = Some d" and "d \<noteq> []"
  shows "addExpense P now st userId inp =
           (Inr (Suc (keygen (expenses st))),
            st\<lparr>expenses := \<lparr>rows = rows (expenses st) @
               [(Suc (keygen (expenses st)),
                 \<lparr>user_id = userId, name = trim n, amount = toFixed2 a,
                  category = (case in_category inp of None \<Rightarrow> ''Alimentation''
                              | Some c \<Rightarrow> if c = [] then ''Alimentation'' else c),
                  date = d,
                  hour = (case Number P (in_hour inp) of NaN \<Rightarrow> 0 | Num h \<Rightarrow> h),
                  minute = (case Number P (in_minute inp) of NaN \<Rightarrow> 0 | Num m \<Rightarrow> m),
                  ts = now\<rparr>)],
               keygen = Suc (keygen (expenses st))\<rparr>\<rparr>)"
proof -
  have or0: "or0 x = (case x of NaN \<Rightarrow> 0 | Num h \<Rightarrow> h)" for x
    by (cases x) simp_all
  have cat: "(if truthy c then String_of c else ''Alimentation'') =
             (case c of None \<Rightarrow> ''Alimentation'' | Some c \<Rightarrow> if c = [] then ''Alimentation'' else c)" for c
    by (cases c) simp_all
  show ?thesis
    using assms by (simp add: addExpense_def db_add_def Let_def or0 cat)
qed

lemma addExpense_success:
  assumes "addExpense P now st userId inp = (Inr k, st')"
  shows "\<exists>n a d. in_name inp = Some n \<and> trim n \<noteq> [] \<and> Number P (in_amount inp) = Num a \<and> 0 < a
           \<and> in_date inp = Some d \<and> d \<noteq> []"
proof -
  from assms obtain n where n: "in_name inp = Some n" "trim n \<noteq> []"
    by (cases "in_name inp") (auto simp: addExpense_def split: if_splits)
  from assms n obtain a where a: "Number P (in_amount inp) = Num a" "0 < a"
    by (cases "Number P (in_amount inp)") (auto simp: addExpense_def split: if_splits)
  from assms n a obtain d where d: "in_date inp = Some d" "d \<noteq> []"
    by (cases "in_date inp") (auto simp: addExpense_def split: if_splits)
  from n a d show ?thesis by blast
qed






text \<open>
  C9, as the code has it. The hour and the minute of a record that \<^verbatim>\<open>addExpense\<close> stores
  are the numbers the supplied values convert to, and 0 when a value is absent or
  converts to \<^verbatim>\<open>NaN\<close>. No range is checked and no rounding is done: an hour is within
  0..23 and a minute within 0..59 when the caller supplies them so.
\<close>

theorem addExpense_hour_minute:
  assumes "addExpense P now st userId inp = (Inr k, st')"
  shows "\<exists>e. rows (expenses st') = rows (expenses st) @ [(k, e)]
           \<and> hour e = (case Number P (in_hour inp) of NaN \<Rightarrow> 0 | Num h \<Rightarrow> h)
           \<and> minute e = (case Number P (in_minute inp) of NaN \<Rightarrow> 0 | Num m \<Rightarrow> m)"
proof -
  from addExpense_success[OF assms] obtain n a d
    where "in_name inp = Some n" "trim n \<noteq> []" "Number P (in_amount inp) = Num a" "0 < a"
      "in_date inp = Some d" "d \<noteq> []" by blast
  from addExpense_valid[OF this, of now st userId] assms show ?thesis by auto
qed

theorem addExpense_hour_minute_witness:
  "addExpense utc_platform noon openDB 1 (taxi\<lparr>in_minute := JStr ''soon''\<rparr>) =
     (Inr 1, \<lparr>users = emptyStore, expenses = \<lparr>rows =
        [(1, \<lparr>user_id = 1, name = ''Taxi'', amount = 1500, category = ''Transport'',
               date = ''2024-03-10'', hour = 8, minute = 0, ts = noon\<rparr>)], keygen = 1\<rparr>\<rparr>)
   \<and> Number utc_platform (in_hour (taxi\<lparr>in_minute := JStr ''soon''\<rparr>)) = Num 8
   \<and> Number utc_platform (in_minute (taxi\<lparr>in_minute := JStr ''soon''\<rparr>)) = NaN
   \<and> (\<exists>e. rows (expenses \<lparr>users = emptyStore, expenses = \<lparr>rows =
        [(1, \<lparr>user_id = 1, name = ''Taxi'', amount = 1500, category = ''Transport'',
               date = ''2024-03-10'', hour = 8, minute = 0, ts = noon\<rparr>)], keygen = 1\<rparr>\<rparr>)
            = rows (expenses openDB) @ [(1, e)] \<and> hour e = 8 \<and> minute e = 0)"
proof -
  have run: "addExpense utc_platform noon openDB 1 (taxi\<lparr>in_minute := JStr ''soon''\<rparr>) =
     (Inr 1, \<lparr>users = emptyStore, expenses = \<lparr>rows =
        [(1, \<lparr>user_id = 1, name = ''Taxi'', amount = 1500, category = ''Transport'',
               date = ''2024-03-10'', hour = 8, minute = 0, ts = noon\<rparr>)], keygen = 1\<rparr>\<rparr>)"
    by code_simp
  have h: "Number utc_platform (in_hour (taxi\<lparr>in_minute := JStr ''soon''\<rparr>)) = Num 8"
    and m: "Number utc_platform (in_minute (taxi\<lparr>in_minute := JStr ''soon''\<rparr>)) = NaN"
    by (simp_all add: taxi_def utc_platform_def digits_to_number_def)
  from addExpense_hour_minute[OF run] run h m show ?thesis by simp
qed

theorem addExpense_hour_minute_counterexample:
  "fst (addExpense utc_platform noon openDB 1 late) = Inr 1
   \<and> rows (expenses (snd (addExpense utc_platform noon openDB 1 late))) =
       [(1, \<lparr>user_id = 1, name = ''Taxi'', amount = 1500, category = ''Transport'',
              date = ''2024-03-10'', hour = 25, minute = 75, ts = 1710072000000\<rparr>)]"
  by code_simp

section \<open>Statistics\<close>

text \<open>Whole numbers below \<open>2\<^sup>5\<^sup>3\<close> are binary64 values, and their sums are exact.\<close>

lemma round_even_of_int: "round_even (of_int m) = m"
  by (simp add: round_even_def)

lemma pow2_nonpos: "s \<le> 0 \<Longrightarrow> pow2 s = 1 / 2 ^ nat (- s)"
  by (cases "s = 0") (simp_all add: pow2_def)

lemma binary64_of_nat:
  assumes "n < 2 ^ 53"
  shows "binary64 (real n) = real n"
proof (cases "n = 0")
  case True
  then show ?thesis by (simp add: binary64_def)
next
  case False
  let ?b = "bitlen (int n)"
  have pos: "0 < int n" using False by simp
  have "int n < 2 ^ 53" using assms by (metis of_nat_less_iff of_nat_numeral of_nat_power)
  then have hi: "?b \<le> 53" by (simp add: bitlen_le_iff_power)
  have lo: "1 \<le> ?b" using pos bitlen_eq_zero_iff[of "int n"] bitlen_nonneg[of "int n"] by linarith
  have one: "1 \<le> real n" using False by simp
  have log: "ilog2 (real n) = ?b - 1"
    using one by (simp add: ilog2_def)
  define k where "k = nat (53 - ?b)"
  have s: "max (ilog2 (real n) - 52) (- 1074) = - int k"
    using lo hi by (simp add: log k_def)
  have p: "pow2 (- int k) = 1 / 2 ^ k"
    using pow2_nonpos[of "- int k"] by simp
  have "real n / pow2 (- int k) = of_int (int n * 2 ^ k)"
    by (simp add: p)
  then have "round_even (real n / pow2 (- int k)) = int n * 2 ^ k"
    by (simp only: round_even_of_int)
  then show ?thesis
    using False by (simp add: binary64_def Let_def s p)
qed

lemma foldl_num_add_exact:
  assumes "\<forall>a\<in>set as. a \<in> \<nat>" and "v \<in> \<nat>" and "v + sum_list as < 2 ^ 53"
  shows "foldl num_add v as = v + sum_list as"
  using assms
proof (induction as arbitrary: v)
  case Nil
  then show ?case by simp
next
  case (Cons a as)
  have rest: "0 \<le> sum_list as"
    using Cons.prems(1) by (intro sum_list_nonneg) (auto simp: Nats_def)
  obtain m n where m: "v = real m" and n: "a = real n"
    using Cons.prems(1,2) by (auto simp: Nats_def)
  have "real (m + n) < 2 ^ 53" using Cons.prems(3) rest by (simp add: m n)
  then have "m + n < 2 ^ 53" by (metis of_nat_less_iff of_nat_numeral of_nat_power)
  then have step: "num_add v a = v + a"
    using binary64_of_nat[of "m + n"] by (simp add: num_add_def m n)
  have "foldl num_add (v + a) as = v + a + sum_list as"
  proof (rule Cons.IH)
    show "\<forall>a\<in>set as. a \<in> \<nat>" using Cons.prems(1) by simp
    show "v + a \<in> \<nat>" using Cons.prems(1,2) by simp
    show "v + a + sum_list as < 2 ^ 53" using Cons.prems(3) by simp
  qed
  then show ?case by (simp add: step)
qed


text \<open>The value a category collects, for a name that \<^verbatim>\<open>Object.prototype\<close> does not have.\<close>

lemma add_to_category_at:
  assumes "c \<notin> set Object_prototype" and "acc c \<noteq> Some StringProp"
  shows "add_to_category x acc c =
     (if category (snd x) = c
      then Some (NumberProp (num_add (case acc c of Some (NumberProp v) \<Rightarrow> v | _ \<Rightarrow> 0)
                               (amount (snd x))))
      else acc c)"
proof -
  have "c \<noteq> ''__proto__''" using assms(1) by (auto simp: Object_prototype_def)
  then show ?thesis
    using assms by (auto simp: add_to_category_def Let_def split: option.splits jsprop.splits)
qed

lemma fold_add_to_category:
  assumes "c \<notin> set Object_prototype" and "acc c \<noteq> Some StringProp"
  shows "fold add_to_category xs acc c =
     (if \<exists>e\<in>set xs. category (snd e) = c
      then Some (NumberProp (foldl num_add (case acc c of Some (NumberProp v) \<Rightarrow> v | _ \<Rightarrow> 0)
                   (map (\<lambda>e. amount (snd e)) (filter (\<lambda>e. category (snd e) = c) xs))))
      else acc c)"
  using assms(2)
proof (induction xs arbitrary: acc)
  case Nil
  then show ?case by simp
next
  case (Cons x xs)
  note step = add_to_category_at[where c = c and acc = acc and x = x, OF assms(1) Cons.prems]
  have next_ok: "add_to_category x acc c \<noteq> Some StringProp"
    using Cons.prems by (simp add: step)
  note IH = Cons.IH[of "add_to_category x acc", OF next_ok]
  show ?case
  proof (cases "category (snd x) = c")
    case True
    have none: "filter (\<lambda>e. category (snd e) = c) xs = []" if "\<not> (\<exists>e\<in>set xs. category (snd e) = c)"
      using that by (simp add: filter_empty_conv)
    show ?thesis
      using True none by (simp add: IH step)
  next
    case False
    then show ?thesis
      by (simp add: IH step)
  qed
qed

text \<open>
  C8, as the code has it. For every category that is not the name of a member of
  \<^verbatim>\<open>Object.prototype\<close>: \<^verbatim>\<open>statsByCategory(userId, period)\<close> has the category as a key
  exactly when one of the expenses that \<^verbatim>\<open>getExpenses(userId, period, 'Toutes')\<close> returns
  has it, and the value is then the sum of the amounts of these expenses, added one by one
  from 0 in the order in which they are returned, each addition rounded to binary64.
\<close>

theorem statsByCategory_sums:
  assumes "c \<notin> set Object_prototype"
  shows "statsByCategory P now st userId period c =
     (if \<exists>e\<in>set (getExpenses P now st userId period (Some ''Toutes'')). category (snd e) = c
      then Some (NumberProp (foldl num_add 0 (map (\<lambda>e. amount (snd e))
                   (filter (\<lambda>e. category (snd e) = c)
                      (getExpenses P now st userId period (Some ''Toutes''))))))
      else None)
   \<and> (c \<in> dom (statsByCategory P now st userId period) \<longleftrightarrow>
        c \<in> (\<lambda>e. category (snd e)) ` set (getExpenses P now st userId period (Some ''Toutes'')))"
proof -
  have at_c: "statsByCategory P now st userId period c =
     (if \<exists>e\<in>set (getExpenses P now st userId period (Some ''Toutes'')). category (snd e) = c
      then Some (NumberProp (foldl num_add 0 (map (\<lambda>e. amount (snd e))
                   (filter (\<lambda>e. category (snd e) = c)
                      (getExpenses P now st userId period (Some ''Toutes''))))))
      else None)"
    unfolding statsByCategory_def Let_def
    by (subst fold_add_to_category[OF assms]) simp_all
  have "c \<in> dom (statsByCategory P now st userId period) \<longleftrightarrow>
        c \<in> (\<lambda>e. category (snd e)) ` set (getExpenses P now st userId period (Some ''Toutes''))"
    using at_c by (cases "\<exists>e\<in>set (getExpenses P now st userId period (Some ''Toutes'')). category (snd e) = c")
      (auto simp: dom_def)
  with at_c show ?thesis by blast
qed

theorem statsByCategory_sums_witness:
  "''Transport'' \<notin> set Object_prototype \<and> ''Loisirs'' \<notin> set Object_prototype
   \<and> map (\<lambda>e. (category (snd e), amount (snd e)))
         (getExpenses utc_platform noon example_store 1 (Some ''all'') (Some ''Toutes''))
       = [(''Alimentation'', 3), (''Alimentation'', 2.5), (''Transport'', 1500), (''Transport'', 1.25)]
   \<and> statsByCategory utc_platform noon example_store 1 (Some ''all'') ''Transport'' =
       Some (NumberProp 1501.25)
   \<and> statsByCategory utc_platform noon example_store 1 (Some ''all'') ''Loisirs'' = None"
proof -
  have t: "''Transport'' \<notin> set Object_prototype" and l: "''Loisirs'' \<notin> set Object_prototype"
    by (simp_all add: Object_prototype_def)
  have run: "getExpenses utc_platform noon example_store 1 (Some ''all'') (Some ''Toutes'') =
      [(5, \<lparr>user_id = 1, name = ''Cafe'', amount = 3, category = ''Alimentation'',
               date = ''2024-03-10'', hour = 12, minute = 5, ts = 5000\<rparr>),
       (2, \<lparr>user_id = 1, name = ''Pain'', amount = 2.5, category = ''Alimentation'',
               date = ''2024-03-10'', hour = 12, minute = 5, ts = 2000\<rparr>),
       (1, \<lparr>user_id = 1, name = ''Taxi'', amount = 1500, category = ''Transport'',
               date = ''2024-03-10'', hour = 8, minute = 30, ts = 1000\<rparr>),
       (4, \<lparr>user_id = 1, name = ''Bus'', amount = 1.25, category = ''Transport'',
               date = ''2024-01-09'', hour = 7, minute = 15, ts = 4000\<rparr>)]"
    by code_simp
  have sum: "foldl num_add 0 [1500, 1.25] = 1501.25"
    by code_simp
  show ?thesis
    using t l sum statsByCategory_sums[OF t, of utc_platform noon example_store 1 "Some ''all''"]
      statsByCategory_sums[OF l, of utc_platform noon example_store 1 "Some ''all''"]
    unfolding run by simp
qed

theorem statsByCategory_sums_counterexample:
  "map (amount \<circ> snd) (getExpenses utc_platform noon rounding_store 1 (Some ''all'') (Some ''Toutes''))
     = [3602879701896397 / 9007199254740992, 3602879701896397 / 36028797018963968,
        3602879701896397 / 18014398509481984]
   \<and> statsByCategory utc_platform noon rounding_store 1 (Some ''all'') ''Alimentation'' =
       Some (NumberProp (3152519739159347 / 4503599627370496))
   \<and> sum_list [3602879701896397 / 9007199254740992, 3602879701896397 / 36028797018963968,
        3602879701896397 / 18014398509481984] = (25220157913274779 / 36028797018963968 :: real)
   \<and> (3152519739159347 / 4503599627370496 :: real) \<noteq> 25220157913274779 / 36028797018963968
   \<and> foldl num_add 0 (map (amount \<circ> snd) (rows (expenses rounding_store))) =
       6305039478318695 / 9007199254740992
   \<and> (3152519739159347 / 4503599627370496 :: real) \<noteq> 6305039478318695 / 9007199254740992"
proof -
  have order: "map (amount \<circ> snd) (getExpenses utc_platform noon rounding_store 1 (Some ''all'') (Some ''Toutes''))
     = [3602879701896397 / 9007199254740992, 3602879701896397 / 36028797018963968,
        3602879701896397 / 18014398509481984]"
    by code_simp
  have stats: "statsByCategory utc_platform noon rounding_store 1 (Some ''all'') ''Alimentation'' =
       Some (NumberProp (3152519739159347 / 4503599627370496))"
    by code_simp
  have store_order: "foldl num_add 0 (map (amount \<circ> snd) (rows (expenses rounding_store))) =
       6305039478318695 / 9007199254740992"
    by code_simp
  show ?thesis
    unfolding order stats store_order by simp
qed

text \<open>The value a month collects.\<close>

lemma fold_add_to_month:
  "fold add_to_month es m k =
     (case m k of None \<Rightarrow> None
      | Some v \<Rightarrow> Some (foldl num_add v (map (\<lambda>e. amount (snd e))
                                  (filter (\<lambda>e. take 7 (date (snd e)) = k) es))))"
proof (induction es arbitrary: m)
  case Nil
  then show ?case by (simp split: option.splits)
next
  case (Cons x xs)
  have step: "add_to_month x m k =
      (case m k of None \<Rightarrow> None
       | Some v \<Rightarrow> Some (if take 7 (date (snd x)) = k then num_add v (amount (snd x)) else v))"
    by (auto simp: add_to_month_def Let_def split: option.splits)
  show ?case
    unfolding fold_simps Cons.IH step by (simp split: option.splits)
qed

lemma map_of_zero: "map_of (map (\<lambda>k. (k, 0 :: real)) ks) k = (if k \<in> set ks then Some 0 else None)"
  by (induction ks) auto

lemma data_statsByMonth:
  "data (statsByMonth P now st userId) =
     map (\<lambda>k. Some (foldl num_add 0 (map (\<lambda>e. amount (snd e))
                 (filter (\<lambda>e. user_id (snd e) = userId \<and> take 7 (date (snd e)) = k)
                    (rows (expenses st))))))
       (month_keys P now)"
  by (simp add: statsByMonth_def Let_def db_getAllFromStore_def fold_add_to_month map_of_zero
      conj_commute cong: map_cong)

lemma sum_list_filter_le:
  "(\<And>e. e \<in> set es \<Longrightarrow> 0 \<le> f e) \<Longrightarrow> sum_list (map f (filter p es)) \<le> (sum_list (map f es) :: real)"
  by (induction es) (auto simp: add_increasing)

lemma sum_list_filter_disjoint:
  "(\<And>e. e \<in> set es \<Longrightarrow> \<not> (p e \<and> q e)) \<Longrightarrow>
     sum_list (map f (filter p es)) + sum_list (map f (filter q es)) =
     (sum_list (map f (filter (\<lambda>e. p e \<or> q e) es)) :: real)"
  by (induction es) auto

lemma sum_list_by_key:
  "distinct ks \<Longrightarrow>
     sum_list (map (\<lambda>k. sum_list (map f (filter (\<lambda>e. q e \<and> g e = k) es))) ks) =
     (sum_list (map f (filter (\<lambda>e. q e \<and> g e \<in> set ks) es)) :: real)"
proof (induction ks)
  case Nil
  then show ?case by simp
next
  case (Cons k ks)
  have "sum_list (map f (filter (\<lambda>e. q e \<and> g e = k) es)) +
        sum_list (map f (filter (\<lambda>e. q e \<and> g e \<in> set ks) es)) =
        sum_list (map f (filter (\<lambda>e. (q e \<and> g e = k) \<or> (q e \<and> g e \<in> set ks)) es))"
    using Cons.prems by (intro sum_list_filter_disjoint) auto
  moreover have "(\<lambda>e. (q e \<and> g e = k) \<or> (q e \<and> g e \<in> set ks)) = (\<lambda>e. q e \<and> g e \<in> set (k # ks))"
    by auto
  ultimately show ?case using Cons by simp
qed

lemma elem_at_nth: "i < length xs \<Longrightarrow> elem_at xs i = Some (xs ! i)"
  by (induction xs i rule: elem_at.induct) simp_all


text \<open>The keys, for a clock whose year is not read as a two-digit year.\<close>

lemma String_int_nonneg: "0 \<le> y \<Longrightarrow> String_int y = show_nat (nat y)"
  by (simp add: String_int_def)

lemma month_keys_nth:
  assumes "100 \<le> getFullYear (new_Date P now)" and "i < 12"
  shows "month_keys P now ! i =
           String_int (getFullYear (new_Date P now) + (int (getMonth (new_Date P now)) - 11 + int i) div 12)
           @ ''-'' @ padStart2 (show_nat (nat ((int (getMonth (new_Date P now)) - 11 + int i) mod 12) + 1))"
  using assms by (simp add: month_keys_def Date_y_m_1_def Let_def)

lemma month_key_inj:
  assumes "0 \<le> y" and "0 \<le> y'" and "m < 12" and "m' < 12"
    and "String_int y @ ''-'' @ padStart2 (show_nat (m + 1)) =
         String_int y' @ ''-'' @ padStart2 (show_nat (m' + 1))"
  shows "y = y' \<and> m = m'"
proof -
  have len: "length (''-'' @ padStart2 (show_nat (m + 1))) = length (''-'' @ padStart2 (show_nat (m' + 1)))"
    using assms(3,4) by (simp add: length_padStart2_show_nat)
  from assms(5) len have "String_int y = String_int y'
      \<and> ''-'' @ padStart2 (show_nat (m + 1)) = ''-'' @ padStart2 (show_nat (m' + 1))"
    by (metis append_eq_append_conv)
  then have "String_int y = String_int y'"
    and "padStart2 (show_nat (m + 1)) = padStart2 (show_nat (m' + 1))"
    by simp_all
  then show ?thesis
    using assms(1,2) padStart2_show_nat_inj[of "m + 1" "m' + 1"]
      show_nat_inj[of "nat y" "nat y'"] by (simp add: String_int_nonneg)
qed

lemma month_index_inj:
  fixes M :: int
  assumes "(M - 11 + int i) div 12 = (M - 11 + int j) div 12"
    and "(M - 11 + int i) mod 12 = (M - 11 + int j) mod 12"
  shows "i = j"
proof -
  have "M - 11 + int i = M - 11 + int j"
    using assms by (metis mult_div_mod_eq)
  then show ?thesis by simp
qed

lemma month_year_nonneg:
  fixes Y M :: int
  assumes "100 \<le> Y" and "0 \<le> M"
  shows "0 \<le> Y + (M - 11 + int i) div 12"
proof -
  have "- 12 \<le> M - 11 + int i" using assms(2) by simp
  then have "(- 12) div 12 \<le> (M - 11 + int i) div 12"
    by (intro zdiv_mono1) simp_all
  then show ?thesis using assms(1) by simp
qed

lemma distinct_month_keys:
  assumes "100 \<le> getFullYear (new_Date P now)"
  shows "distinct (month_keys P now)"
proof -
  let ?Y = "getFullYear (new_Date P now)" and ?M = "int (getMonth (new_Date P now))"
  have "i = j" if "i < 12" "j < 12" "month_keys P now ! i = month_keys P now ! j" for i j
  proof -
    let ?x = "?M - 11 + int i" and ?x' = "?M - 11 + int j"
    have y: "0 \<le> ?Y + ?x div 12" "0 \<le> ?Y + ?x' div 12"
      using assms by (simp_all add: month_year_nonneg)
    have m: "nat (?x mod 12) < 12" "nat (?x' mod 12) < 12" by simp_all
    have eq: "String_int (?Y + ?x div 12) @ ''-'' @ padStart2 (show_nat (nat (?x mod 12) + 1)) =
          String_int (?Y + ?x' div 12) @ ''-'' @ padStart2 (show_nat (nat (?x' mod 12) + 1))"
      using that(3) by (simp only: month_keys_nth[OF assms that(1)] month_keys_nth[OF assms that(2)])
    have "?Y + ?x div 12 = ?Y + ?x' div 12 \<and> nat (?x mod 12) = nat (?x' mod 12)"
      by (rule month_key_inj[OF y m eq])
    then have "?x div 12 = ?x' div 12" "?x mod 12 = ?x' mod 12"
      by (simp_all add: nat_eq_iff)
    then show ?thesis by (rule month_index_inj)
  qed
  moreover have "length (month_keys P now) = 12" by (simp add: month_keys_def)
  ultimately show ?thesis unfolding distinct_conv_nth by metis
qed

text \<open>The label of a key.\<close>

lemma month_label_key:
  assumes "0 \<le> y" and "m < 12"
    and "string_to_number P (padStart2 (show_nat (m + 1))) = Num (real (m + 1))"
  shows "month_label P (String_int y @ ''-'' @ padStart2 (show_nat (m + 1))) = MN ! m @ '' '' @ String_int y"
proof -
  have dash: "CHR ''-'' \<notin> set (show_nat (nat y))" "CHR ''-'' \<notin> set (padStart2 (show_nat (m + 1)))"
    using set_show_nat[of "nat y"] set_padStart2_show_nat[of "m + 1"] by auto
  have parts: "split_on CHR ''-'' (String_int y @ ''-'' @ padStart2 (show_nat (m + 1))) =
          [show_nat (nat y), padStart2 (show_nat (m + 1))]"
    using dash assms(1) by (simp add: String_int_nonneg split_on_append split_on_notin)
  have "index_num MN (Num (real m)) = Some (MN ! m)"
    using assms(2) elem_at_nth[of m MN] by (simp add: MN_def)
  then show ?thesis
    unfolding month_label_def parts using assms(1,3)
    by (simp add: String_int_nonneg)
qed


text \<open>
  C7, as the code has it. For a clock whose year is at least 100 (JavaScript reads a year
  from 0 to 99 as 19xx) and whose month is one of the twelve, on a platform that converts
  the two-digit strings \<open>01\<close> to \<open>12\<close> to their numbers: \<^verbatim>\<open>statsByMonth(userId)\<close> returns
  twelve labels and twelve values. The \<open>i\<close>-th key is the month \<open>11 - i\<close> months before the
  current one, the last one the current month; its label is the month's abbreviation and
  its year, and its value is the sum of the user's amounts whose date starts with the key,
  added one by one from 0 in the order of the store, each addition rounded to binary64: it
  is 0 when there is none. When the user's amounts are whole numbers with a total below
  \<open>2\<^sup>5\<^sup>3\<close>, no addition rounds and the twelve values add up to the total of the user's
  amounts whose date starts with one of the twelve keys.
\<close>

theorem statsByMonth_twelve_months:
  assumes "100 \<le> getFullYear (new_Date P now)"
    and "getMonth (new_Date P now) < 12"
    and "\<forall>k\<in>{1..12}. string_to_number P (padStart2 (show_nat k)) = Num (real k)"
  shows "length (labels (statsByMonth P now st userId)) = 12
       \<and> length (data (statsByMonth P now st userId)) = 12
       \<and> (\<forall>i<12.
            let x = int (getMonth (new_Date P now)) - 11 + int i;
                y = getFullYear (new_Date P now) + x div 12;
                m = nat (x mod 12);
                k = String_int y @ ''-'' @ padStart2 (show_nat (m + 1))
            in month_keys P now ! i = k
             \<and> labels (statsByMonth P now st userId) ! i = MN ! m @ '' '' @ String_int y
             \<and> data (statsByMonth P now st userId) ! i =
                 Some (foldl num_add 0 (map (\<lambda>e. amount (snd e))
                   (filter (\<lambda>e. user_id (snd e) = userId \<and> take 7 (date (snd e)) = k)
                      (rows (expenses st))))))
       \<and> last (month_keys P now) =
           String_int (getFullYear (new_Date P now)) @ ''-''
             @ padStart2 (show_nat (getMonth (new_Date P now) + 1))
       \<and> ((\<forall>e\<in>set (rows (expenses st)). user_id (snd e) = userId \<longrightarrow> amount (snd e) \<in> \<nat>)
            \<and> sum_list (map (\<lambda>e. amount (snd e))
                  (filter (\<lambda>e. user_id (snd e) = userId) (rows (expenses st)))) < 2 ^ 53
          \<longrightarrow> (\<exists>vs. data (statsByMonth P now st userId) = map Some vs
                 \<and> sum_list vs =
                     sum_list (map (\<lambda>e. amount (snd e))
                       (filter (\<lambda>e. user_id (snd e) = userId
                                    \<and> take 7 (date (snd e)) \<in> set (month_keys P now))
                          (rows (expenses st))))))"
proof -
  let ?Y = "getFullYear (new_Date P now)" and ?M = "getMonth (new_Date P now)"
  let ?S = "statsByMonth P now st userId"
  let ?amounts = "\<lambda>k. map (\<lambda>e. amount (snd e))
                   (filter (\<lambda>e. user_id (snd e) = userId \<and> take 7 (date (snd e)) = k)
                      (rows (expenses st)))"
  have len: "length (month_keys P now) = 12"
    by (simp add: month_keys_def)
  have labels: "labels ?S = map (month_label P) (month_keys P now)"
    by (simp add: statsByMonth_def Let_def)
  have data: "data ?S = map (\<lambda>k. Some (foldl num_add 0 (?amounts k))) (month_keys P now)"
    by (rule data_statsByMonth)
  have each: "month_keys P now ! i = String_int (?Y + (int ?M - 11 + int i) div 12) @ ''-''
                 @ padStart2 (show_nat (nat ((int ?M - 11 + int i) mod 12) + 1))
      \<and> labels ?S ! i = MN ! nat ((int ?M - 11 + int i) mod 12) @ '' ''
                 @ String_int (?Y + (int ?M - 11 + int i) div 12)
      \<and> data ?S ! i = Some (foldl num_add 0 (?amounts (String_int (?Y + (int ?M - 11 + int i) div 12)
                 @ ''-'' @ padStart2 (show_nat (nat ((int ?M - 11 + int i) mod 12) + 1)))))"
    if i: "i < 12" for i
  proof -
    let ?x = "int ?M - 11 + int i"
    have key: "month_keys P now ! i =
        String_int (?Y + ?x div 12) @ ''-'' @ padStart2 (show_nat (nat (?x mod 12) + 1))"
      by (rule month_keys_nth[OF assms(1) i])
    have y: "0 \<le> ?Y + ?x div 12"
      using assms(1) by (simp add: month_year_nonneg)
    have m: "nat (?x mod 12) < 12" by simp
    then have "nat (?x mod 12) + 1 \<in> {1..12}" by simp
    with assms(3) have conv: "string_to_number P (padStart2 (show_nat (nat (?x mod 12) + 1))) =
        Num (real (nat (?x mod 12) + 1))" by blast
    have "labels ?S ! i = month_label P (month_keys P now ! i)"
      using i len by (simp add: labels)
    then have label: "labels ?S ! i = MN ! nat (?x mod 12) @ '' '' @ String_int (?Y + ?x div 12)"
      unfolding key by (simp only: month_label_key[OF y m conv])
    have "data ?S ! i = Some (foldl num_add 0 (?amounts (month_keys P now ! i)))"
      using i len by (simp add: data)
    with key label show ?thesis by simp
  qed
  have last: "last (month_keys P now) = String_int ?Y @ ''-'' @ padStart2 (show_nat (?M + 1))"
  proof -
    have "last (month_keys P now) = month_keys P now ! 11"
      using len by (subst last_conv_nth) auto
    also have "\<dots> = String_int ?Y @ ''-'' @ padStart2 (show_nat (?M + 1))"
      using assms(2) by (simp add: month_keys_nth[OF assms(1)])
    finally show ?thesis .
  qed
  have whole: "\<exists>vs. data ?S = map Some vs \<and> sum_list vs =
      sum_list (map (\<lambda>e. amount (snd e))
        (filter (\<lambda>e. user_id (snd e) = userId \<and> take 7 (date (snd e)) \<in> set (month_keys P now))
           (rows (expenses st))))"
    if nats: "\<forall>e\<in>set (rows (expenses st)). user_id (snd e) = userId \<longrightarrow> amount (snd e) \<in> \<nat>"
      and total: "sum_list (map (\<lambda>e. amount (snd e))
                  (filter (\<lambda>e. user_id (snd e) = userId) (rows (expenses st)))) < 2 ^ 53"
  proof -
    let ?mine = "filter (\<lambda>e. user_id (snd e) = userId) (rows (expenses st))"
    have exact: "foldl num_add 0 (?amounts k) = sum_list (?amounts k)" for k
    proof -
      have nonneg: "0 \<le> amount (snd e)" if "e \<in> set ?mine" for e
        using that nats by (auto simp: Nats_def)
      have "sum_list (map (\<lambda>e. amount (snd e)) (filter (\<lambda>e. take 7 (date (snd e)) = k) ?mine))
              \<le> sum_list (map (\<lambda>e. amount (snd e)) ?mine)"
        using nonneg by (rule sum_list_filter_le)
      then have bound: "0 + sum_list (?amounts k) < 2 ^ 53"
        using total by (simp add: conj_commute)
      have "\<forall>a\<in>set (?amounts k). a \<in> \<nat>"
        using nats by auto
      from foldl_num_add_exact[OF this _ bound] show ?thesis by simp
    qed
    have "sum_list (map (\<lambda>k. sum_list (?amounts k)) (month_keys P now)) =
      sum_list (map (\<lambda>e. amount (snd e))
        (filter (\<lambda>e. user_id (snd e) = userId \<and> take 7 (date (snd e)) \<in> set (month_keys P now))
           (rows (expenses st))))"
      by (rule sum_list_by_key[OF distinct_month_keys[OF assms(1)]])
    moreover have "data ?S = map Some (map (\<lambda>k. sum_list (?amounts k)) (month_keys P now))"
      by (simp add: data exact)
    ultimately show ?thesis by blast
  qed
  have l1: "length (labels ?S) = 12" and l2: "length (data ?S) = 12"
    using len by (simp_all add: labels data)
  have all: "\<forall>i<12.
            let x = int ?M - 11 + int i;
                y = ?Y + x div 12;
                m = nat (x mod 12);
                k = String_int y @ ''-'' @ padStart2 (show_nat (m + 1))
            in month_keys P now ! i = k
             \<and> labels ?S ! i = MN ! m @ '' '' @ String_int y
             \<and> data ?S ! i = Some (foldl num_add 0 (?amounts k))"
    unfolding Let_def using each by blast
  from l1 l2 all last whole show ?thesis by blast
qed


theorem statsByMonth_twelve_months_witness:
  "getFullYear (new_Date utc_platform noon) = 2024 \<and> getMonth (new_Date utc_platform noon) = 2
   \<and> string_to_number utc_platform (padStart2 (show_nat 3)) = Num 3
   \<and> length (labels (statsByMonth utc_platform noon example_store 2)) = 12
   \<and> length (data (statsByMonth utc_platform noon example_store 2)) = 12
   \<and> last (month_keys utc_platform noon) = ''2024-03''
   \<and> labels (statsByMonth utc_platform noon example_store 2) ! 11 = ''Mar 2024''
   \<and> data (statsByMonth utc_platform noon example_store 2) =
       [Some 0, Some 0, Some 0, Some 0, Some 0, Some 0, Some 0, Some 0, Some 0,
        Some 0, Some 0, Some 12]
   \<and> (\<exists>vs. data (statsByMonth utc_platform noon example_store 2) = map Some vs \<and> sum_list vs = 12)"
proof -
  note d = today_noon
  have y: "100 \<le> getFullYear (new_Date utc_platform noon)"
    and m: "getMonth (new_Date utc_platform noon) < 12"
    by (simp_all add: d)
  have conv: "\<forall>k\<in>{1..12}. string_to_number utc_platform (padStart2 (show_nat k)) = Num (real k)"
    by (simp add: utc_platform_def digits_to_number_def digits_value_padStart2 digits_value_show_nat)
  note months = statsByMonth_twelve_months[OF y m conv, of example_store 2]
  from months have lens: "length (labels (statsByMonth utc_platform noon example_store 2)) = 12"
    "length (data (statsByMonth utc_platform noon example_store 2)) = 12"
    by blast+
  from months have "last (month_keys utc_platform noon) =
      String_int (getFullYear (new_Date utc_platform noon)) @ ''-''
        @ padStart2 (show_nat (getMonth (new_Date utc_platform noon) + 1))"
    by blast
  then have last: "last (month_keys utc_platform noon) = ''2024-03''"
    by (simp add: d String_int_def padStart2_def show_nat.simps digit_char_def)
  have label: "labels (statsByMonth utc_platform noon example_store 2) ! 11 = ''Mar 2024''"
    unfolding statsByMonth_def month_keys_noon by code_simp
  have vals: "data (statsByMonth utc_platform noon example_store 2) =
       [Some 0, Some 0, Some 0, Some 0, Some 0, Some 0, Some 0, Some 0, Some 0,
        Some 0, Some 0, Some 12]"
    unfolding statsByMonth_def month_keys_noon by code_simp
  have whole: "\<forall>e\<in>set (rows (expenses example_store)). user_id (snd e) = 2 \<longrightarrow> amount (snd e) \<in> \<nat>"
    by (simp add: example_store_def)
  have total: "sum_list (map (\<lambda>e. amount (snd e))
                  (filter (\<lambda>e. user_id (snd e) = 2) (rows (expenses example_store)))) < 2 ^ 53"
    by (simp add: example_store_def)
  have in_year: "sum_list (map (\<lambda>e. amount (snd e))
        (filter (\<lambda>e. user_id (snd e) = 2 \<and> take 7 (date (snd e)) \<in> set (month_keys utc_platform noon))
           (rows (expenses example_store)))) = 12"
    unfolding month_keys_noon by (simp add: example_store_def)
  from months whole total
  have "\<exists>vs. data (statsByMonth utc_platform noon example_store 2) = map Some vs
          \<and> sum_list vs = sum_list (map (\<lambda>e. amount (snd e))
        (filter (\<lambda>e. user_id (snd e) = 2 \<and> take 7 (date (snd e)) \<in> set (month_keys utc_platform noon))
           (rows (expenses example_store))))"
    by blast
  then have sum: "\<exists>vs. data (statsByMonth utc_platform noon example_store 2) = map Some vs \<and> sum_list vs = 12"
    unfolding in_year .
  have three: "string_to_number utc_platform (padStart2 (show_nat 3)) = Num 3"
    using conv by simp
  from lens last label vals three sum show ?thesis by (simp add: d)
qed

theorem statsByMonth_twelve_months_counterexample:
  "month_keys utc_platform noon =
    [''2023-04'', ''2023-05'', ''2023-06'', ''2023-07'', ''2023-08'', ''2023-09'',
     ''2023-10'', ''2023-11'', ''2023-12'', ''2024-01'', ''2024-02'', ''2024-03'']
   \<and> map (date \<circ> snd) (rows (expenses rounding_store)) = [''2024-03-01'', ''2024-02-10'', ''2024-03-05'']
   \<and> map (user_id \<circ> snd) (rows (expenses rounding_store)) = [1, 1, 1]
   \<and> data (statsByMonth utc_platform noon rounding_store 1) =
       [Some 0, Some 0, Some 0, Some 0, Some 0, Some 0, Some 0, Some 0, Some 0, Some 0,
        Some (3602879701896397 / 18014398509481984), Some (1 / 2)]
   \<and> sum_list [0, 0, 0, 0, 0, 0, 0, 0, 0, 0, 3602879701896397 / 18014398509481984, 1 / 2]
       = (12610078956637389 / 18014398509481984 :: real)
   \<and> sum_list (map (amount \<circ> snd) (rows (expenses rounding_store)))
       = 25220157913274779 / 36028797018963968
   \<and> (12610078956637389 / 18014398509481984 :: real) \<noteq> 25220157913274779 / 36028797018963968
   \<and> foldl num_add 0 [0, 0, 0, 0, 0, 0, 0, 0, 0, 0, 3602879701896397 / 18014398509481984, 1 / 2]
       = 3152519739159347 / 4503599627370496
   \<and> foldl num_add 0 (map (amount \<circ> snd) (rows (expenses rounding_store)))
       = 6305039478318695 / 9007199254740992
   \<and> (3152519739159347 / 4503599627370496 :: real) \<noteq> 6305039478318695 / 9007199254740992"
proof -
  have rows: "map (date \<circ> snd) (rows (expenses rounding_store)) = [''2024-03-01'', ''2024-02-10'', ''2024-03-05'']"
    "map (user_id \<circ> snd) (rows (expenses rounding_store)) = [1, 1, 1]"
    by (simp_all add: rounding_store_def)
  have vals: "data (statsByMonth utc_platform noon rounding_store 1) =
       [Some 0, Some 0, Some 0, Some 0, Some 0, Some 0, Some 0, Some 0, Some 0, Some 0,
        Some (3602879701896397 / 18014398509481984), Some (1 / 2)]"
    unfolding statsByMonth_def month_keys_noon by code_simp
  have exact: "sum_list (map (amount \<circ> snd) (rows (expenses rounding_store)))
       = 25220157913274779 / 36028797018963968"
    by (simp add: rounding_store_def)
  have rounded_values: "foldl num_add 0 [0, 0, 0, 0, 0, 0, 0, 0, 0, 0, 3602879701896397 / 18014398509481984, 1 / 2]
       = 3152519739159347 / 4503599627370496"
    by code_simp
  have rounded_amounts: "foldl num_add 0 (map (amount \<circ> snd) (rows (expenses rounding_store)))
       = 6305039478318695 / 9007199254740992"
    by code_simp
  show ?thesis
    unfolding month_keys_noon rows vals exact rounded_values rounded_amounts by simp
qed

end
